theory Spec2Isabelle
  imports Complex_Main "HOL-Library.Char_ord" "HOL-Library.List_Lexorder" "HOL-Library.Multiset"
begin

section \<open>Python values\<close>

text \<open>
  A Python \<open>str\<close> and a Python \<open>bytes\<close> are both lists of 8-bit characters here; strings
  are compared as Python compares them, character by character (\<open>Char_ord\<close>,
  \<open>List_Lexorder\<close>). A Python \<open>float\<close> (a time stamp, a duration) is a rational number:
  the development only stores, subtracts and compares such values.
\<close>

type_synonym bytes = string
type_synonym pyfloat = rat

text \<open>\<open>str.isspace\<close> on the characters below 256.\<close>

definition isspace :: "char \<Rightarrow> bool" where
  "isspace c = (let n = (of_char c :: nat)
                in (9 \<le> n \<and> n \<le> 13) \<or> (28 \<le> n \<and> n \<le> 32) \<or> n = 133 \<or> n = 160)"

text \<open>\<open>s.strip()\<close> is \<open>strip isspace s\<close>; \<open>s.strip(chars)\<close> is \<open>strip (\<lambda>c. c \<in> set chars) s\<close>.\<close>

definition strip :: "(char \<Rightarrow> bool) \<Rightarrow> string \<Rightarrow> string" where
  "strip P s = rev (dropWhile P (rev (dropWhile P s)))"

text \<open>\<open>xs[a:b]\<close> for indices that are not negative.\<close>

definition slice :: "'a list \<Rightarrow> nat \<Rightarrow> nat \<Rightarrow> 'a list" where
  "slice xs a b = drop a (take b xs)"

definition lower_char :: "char \<Rightarrow> char" where
  "lower_char c = (let n = (of_char c :: nat)
                   in if (65 \<le> n \<and> n \<le> 90) \<or> (192 \<le> n \<and> n \<le> 222 \<and> n \<noteq> 215)
                      then char_of (n + 32) else c)"

definition lower :: "string \<Rightarrow> string" where
  "lower s = map lower_char s"

text \<open>\<open>str(n)\<close> for an integer that is not negative.\<close>

fun str_nat :: "nat \<Rightarrow> string" where
  "str_nat n = (if n < 10 then [''0123456789'' ! n]
                else str_nat (n div 10) @ [''0123456789'' ! (n mod 10)])"

declare str_nat.simps [simp del]

text \<open>\<open>s.rfind(c)\<close>: the last index of \<open>c\<close>, or \<open>-1\<close>.\<close>

definition rfind :: "string \<Rightarrow> char \<Rightarrow> int" where
  "rfind s c = (if c \<in> set s
                then int (length s) - 1 - int (length (takeWhile (\<lambda>x. x \<noteq> c) (rev s)))
                else - 1)"

subsection \<open>pathlib\<close>

text \<open>
  A \<open>Path\<close> is its string. The paths the program handles come out of \<open>str(root / name)\<close>,
  so they are already in the form \<open>str(Path(p))\<close> gives back.
\<close>

definition path_name :: "string \<Rightarrow> string" where
  "path_name p = rev (takeWhile (\<lambda>c. c \<noteq> CHR ''/'') (rev p))"

definition suffix :: "string \<Rightarrow> string" where
  "suffix p = (let name = path_name p; i = rfind name CHR ''.''
               in if 0 < i \<and> i < int (length name) - 1 then drop (nat i) name else [])"

definition joinpath :: "string \<Rightarrow> string \<Rightarrow> string" where
  "joinpath parent name = (if parent = ''.'' then name else parent @ ''/'' @ name)"

section \<open>data_classes.py\<close>

record FileAnalysis =
  file_path :: string
  "functions" :: "string list"
  "imports" :: "string list"
  language :: string
  file_size :: nat
  processing_time :: pyfloat

record RepositoryAnalysis =
  total_files :: nat
  total_functions :: nat
  total_imports :: nat
  languages_found :: "string set"
  processing_time :: pyfloat
  files :: "FileAnalysis list"

section \<open>config.py\<close>

record language_config =
  extensions :: "string list"
  language_name :: string
  imports_pattern :: string
  functions_pattern :: string

text \<open>
  The table \<open>LANGUAGE_CONFIGS\<close>, in the order of the source. The pattern texts are the
  source's, with every run of white space written as one space.
\<close>

definition LANGUAGE_CONFIGS :: "(string \<times> language_config) list" where
  \<open>LANGUAGE_CONFIGS =
    [(''python'',
      \<lparr>extensions = [''.py'', ''.pyw''], language_name = ''python'',
       imports_pattern = ''(import_statement (dotted_name) @import.name) (import_from_statement module_name: (dotted_name) @import.name)'',
       functions_pattern = ''[ (function_definition name: (identifier) @function.name) (class_definition name: (identifier) @class.name) ]''\<rparr>),
     (''javascript'',
      \<lparr>extensions = [''.js'', ''.jsx'', ''.mjs'', ''.cjs''], language_name = ''javascript'',
       imports_pattern = ''(import_statement source: (string) @import.name) (call_expression function: (identifier) @require arguments: (arguments (string) @import.name) (#eq? @require "require"))'',
       functions_pattern = ''(function_declaration name: (identifier) @function.name) (variable_declarator name: (identifier) @function.name value: [(arrow_function) (function)]) (class_declaration name: (identifier) @class.name) (method_definition name: (property_identifier) @method.name)''\<rparr>),
     (''typescript'',
      \<lparr>extensions = [''.ts'', ''.tsx''], language_name = ''typescript'',
       imports_pattern = ''(import_statement source: (string) @import.name)'',
       functions_pattern = ''(function_declaration name: (identifier) @function.name) (lexical_declaration (variable_declarator name: (identifier) @function.name value: (arrow_function))) (class_declaration name: (type_identifier) @class.name) (method_definition name: (property_identifier) @method.name) (interface_declaration name: (type_identifier) @interface.name)''\<rparr>),
     (''java'',
      \<lparr>extensions = [''.java''], language_name = ''java'',
       imports_pattern = ''(import_declaration (scoped_identifier) @import.name)'',
       functions_pattern = ''(method_declaration name: (identifier) @function.name) (class_declaration name: (identifier) @class.name) (interface_declaration name: (identifier) @interface.name)''\<rparr>),
     (''go'',
      \<lparr>extensions = [''.go''], language_name = ''go'',
       imports_pattern = ''(import_spec path: (interpreted_string_literal) @import.name)'',
       functions_pattern = ''(function_declaration name: (identifier) @function.name) (method_declaration name: (field_identifier) @method.name) (type_declaration (type_spec name: (type_identifier) @type.name))''\<rparr>)]\<close>

section \<open>The world outside the program\<close>

subsection \<open>Exceptions and log records\<close>

datatype exn = FileNotFoundError | KeyError | EngineError

text \<open>The records handed to \<open>logger\<close>, by the call that makes them.\<close>

datatype event =
    WarningLoadFailed string
  | WarningCouldNotRead string
  | ErrorWorkerFailed string
  | InfoStarting string
  | InfoFound nat
  | InfoCompleted

subsection \<open>The parsing engine and the library functions\<close>

datatype language = Language string
datatype query = Query string
datatype tree = Tree string
datatype node = Node (start_byte: nat) (end_byte: nat)

text \<open>
  The library the program calls is a parameter: \<open>hashlib.md5(s.encode()).hexdigest()\<close>,
  the text an f-string gives a float, \<open>bytes.decode("utf-8", errors="ignore")\<close>, and the
  four calls into tree-sitter, each of which may raise.
\<close>

record env =
  md5_hexdigest :: "string \<Rightarrow> string"
  float_str :: "pyfloat \<Rightarrow> string"
  decode_ignore :: "bytes \<Rightarrow> string"
  get_language :: "string \<Rightarrow> exn + language"
  language_query :: "language \<Rightarrow> string \<Rightarrow> exn + query"
  parser_parse :: "language \<Rightarrow> bytes \<Rightarrow> exn + tree"
  query_captures :: "query \<Rightarrow> tree \<Rightarrow> exn + (node \<times> string) list"

subsection \<open>The file system\<close>

text \<open>
  A regular file has a modification time and its bytes (\<open>st_size\<close> is their number);
  \<open>open(path, "rb")\<close> raises \<open>IOError\<close> on a file that is not readable.
\<close>

record source_file =
  st_mtime :: pyfloat
  content :: bytes
  readable :: bool

definition st_size :: "source_file \<Rightarrow> nat" where
  "st_size f = length (content f)"

text \<open>
  A file of the cache directory, by what reading it does: \<open>open\<close> raises
  (\<open>Unreadable\<close>); \<open>json.load\<close> or the constructor \<open>FileAnalysis(**d)\<close> raises
  (\<open>Malformed\<close>); or the file is what \<open>json.dump(asdict(a))\<close> wrote, which loads as \<open>a\<close>
  (\<open>Entry a\<close>).
\<close>

datatype cache_file = Unreadable | Malformed | Entry FileAnalysis

text \<open>
  What writing a cache file does: it succeeds; \<open>open(cache_file, "w")\<close> raises and the
  directory is as before; or \<open>json.dump\<close> raises and leaves a truncated file.
\<close>

datatype write_result = Written | OpenFailed | DumpFailed

text \<open>A directory as \<open>os.walk\<close> sees it: its subdirectories and its file names, in scan order.\<close>

datatype dir = Dir "(string \<times> dir) list" "string list"

record filesystem =
  tree_at :: "string \<rightharpoonup> dir"
  file_at :: "string \<rightharpoonup> source_file"
  cache :: "string \<rightharpoonup> cache_file"
  cache_write :: "string \<Rightarrow> write_result"

section \<open>repo_parser.py\<close>

subsection \<open>The languages of a worker process\<close>

record lang_data =
  parser_lang :: language
  queries_imports :: query
  queries_functions :: query

text \<open>
  The module state of one process: the dictionary \<open>WORKER_LANGUAGES\<close> (a key holds
  either the loaded data or \<open>None\<close>) and what the process has logged. \<open>LoadAttempt\<close> marks
  every entry into the \<open>try\<close> block that loads a language.
\<close>

datatype trace = LoadAttempt string | Log event

record worker =
  WORKER_LANGUAGES :: "string \<rightharpoonup> lang_data option"
  events :: "trace list"

text \<open>The body of the \<open>try\<close> block; \<open>Inl\<close> is the exception it raises.\<close>

definition load_language :: "env \<Rightarrow> string \<Rightarrow> exn + lang_data" where
  "load_language e lang_name =
     (case map_of LANGUAGE_CONFIGS lang_name of
        None \<Rightarrow> Inl KeyError
      | Some config \<Rightarrow>
          (case get_language e (language_name config) of
             Inl x \<Rightarrow> Inl x
           | Inr lang \<Rightarrow>
               (case language_query e lang (imports_pattern config) of
                  Inl x \<Rightarrow> Inl x
                | Inr qi \<Rightarrow>
                    (case language_query e lang (functions_pattern config) of
                       Inl x \<Rightarrow> Inl x
                     | Inr qf \<Rightarrow>
                         Inr \<lparr>parser_lang = lang, queries_imports = qi,
                              queries_functions = qf\<rparr>))))"

definition get_language_for_worker ::
  "env \<Rightarrow> string \<Rightarrow> worker \<Rightarrow> lang_data option \<times> worker" where
  "get_language_for_worker e lang_name w =
     (case WORKER_LANGUAGES w lang_name of
        Some d \<Rightarrow> (d, w)
      | None \<Rightarrow>
          (case load_language e lang_name of
             Inr d \<Rightarrow>
               (Some d,
                w\<lparr>WORKER_LANGUAGES := (WORKER_LANGUAGES w)(lang_name \<mapsto> Some d),
                  events := events w @ [LoadAttempt lang_name]\<rparr>)
           | Inl x \<Rightarrow>
               (None,
                w\<lparr>WORKER_LANGUAGES := (WORKER_LANGUAGES w)(lang_name \<mapsto> None),
                  events := events w @ [LoadAttempt lang_name,
                                        Log (WarningLoadFailed lang_name)]\<rparr>)))"

subsection \<open>PerformantRepositoryParser\<close>

record PerformantRepositoryParser =
  max_workers :: nat
  max_file_size :: nat
  use_cache :: bool
  cache_dir :: string
  extension_to_lang_name :: "string \<rightharpoonup> string"

text \<open>
  The dictionary comprehension of \<open>__init__\<close>: a later pair replaces an earlier one with
  the same extension.
\<close>

definition extension_pairs :: "(string \<times> language_config) list \<Rightarrow> (string \<times> string) list" where
  "extension_pairs configs =
     concat (map (\<lambda>(name, config). map (\<lambda>ext. (ext, name)) (extensions config)) configs)"

definition init :: "nat option \<Rightarrow> nat \<Rightarrow> bool \<Rightarrow> string \<Rightarrow> nat option \<Rightarrow> PerformantRepositoryParser" where
  "init workers_arg size_arg cache_arg dir_arg cpu_count =
     \<lparr>max_workers =
        (case workers_arg of
           Some n \<Rightarrow> if n \<noteq> 0 then n
                     else min 32 ((case cpu_count of Some c \<Rightarrow> if c \<noteq> 0 then c else 1 | None \<Rightarrow> 1) + 4)
         | None \<Rightarrow> min 32 ((case cpu_count of Some c \<Rightarrow> if c \<noteq> 0 then c else 1 | None \<Rightarrow> 1) + 4)),
      max_file_size = size_arg,
      use_cache = cache_arg,
      cache_dir = dir_arg,
      extension_to_lang_name = map_of (rev (extension_pairs LANGUAGE_CONFIGS))\<rparr>"

text \<open>The truth value Python gives the result of \<open>dict.get\<close> on a dictionary of strings.\<close>

definition truthy :: "string option \<Rightarrow> bool" where
  "truthy r = (case r of None \<Rightarrow> False | Some s \<Rightarrow> s \<noteq> [])"

definition get_file_hash :: "env \<Rightarrow> filesystem \<Rightarrow> string \<Rightarrow> exn + string" where
  "get_file_hash e fs p =
     (case file_at fs p of
        None \<Rightarrow> Inl FileNotFoundError
      | Some stat \<Rightarrow>
          Inr (md5_hexdigest e
                 (p @ '':'' @ float_str e (st_mtime stat) @ '':'' @ str_nat (st_size stat))))"


definition write_cache_file :: "filesystem \<Rightarrow> string \<Rightarrow> FileAnalysis \<Rightarrow> filesystem" where
  "write_cache_file fs cache_file analysis =
     (case cache_write fs cache_file of
        Written \<Rightarrow> fs\<lparr>cache := (cache fs)(cache_file \<mapsto> Entry analysis)\<rparr>
      | OpenFailed \<Rightarrow> fs
      | DumpFailed \<Rightarrow> fs\<lparr>cache := (cache fs)(cache_file \<mapsto> Malformed)\<rparr>)"

definition save_to_cache ::
  "env \<Rightarrow> PerformantRepositoryParser \<Rightarrow> filesystem \<Rightarrow> FileAnalysis \<Rightarrow> filesystem" where
  "save_to_cache e self fs analysis =
     (if \<not> use_cache self then fs
      else case get_file_hash e fs (file_path analysis) of
             Inl x \<Rightarrow> fs
           | Inr h \<Rightarrow> write_cache_file fs (joinpath (cache_dir self) (h @ ''.json'')) analysis)"

definition should_process_file ::
  "PerformantRepositoryParser \<Rightarrow> filesystem \<Rightarrow> string \<Rightarrow> exn + bool \<times> string option" where
  "should_process_file self fs p =
     (case file_at fs p of
        None \<Rightarrow> Inl FileNotFoundError
      | Some stat \<Rightarrow>
          if st_size stat > max_file_size self then Inr (False, None)
          else let lang_name = extension_to_lang_name self (lower (suffix p))
               in Inr (lang_name \<noteq> None, lang_name))"

subsection \<open>Discovery\<close>

definition default_exclude_patterns :: "string set" where
  "default_exclude_patterns =
     {''.git'', ''node_modules'', ''__pycache__'', ''build'', ''dist'', ''.venv''}"

text \<open>
  \<open>os.walk(top, topdown=True)\<close> with the pruning of \<open>dirs\<close>: the files of a directory
  first, then the directories that are left, each in turn.
\<close>

fun walk :: "(string \<rightharpoonup> string) \<Rightarrow> string set \<Rightarrow> string \<Rightarrow> dir \<Rightarrow> string list"
  and walk_dirs :: "(string \<rightharpoonup> string) \<Rightarrow> string set \<Rightarrow> string \<Rightarrow> (string \<times> dir) list \<Rightarrow> string list"
where
  "walk ext excl base (Dir dirs filenames) =
     [joinpath base filename. filename \<leftarrow> filenames,
        truthy (ext (lower (suffix (joinpath base filename))))]
     @ walk_dirs ext excl base dirs"
| "walk_dirs ext excl base [] = []"
| "walk_dirs ext excl base ((d, sub) # rest) =
     (if d \<in> excl then [] else walk ext excl (joinpath base d) sub)
     @ walk_dirs ext excl base rest"

definition collect_files ::
  "PerformantRepositoryParser \<Rightarrow> filesystem \<Rightarrow> string \<Rightarrow> string set option \<Rightarrow> string list" where
  "collect_files self fs repo_path exclude_patterns =
     (let excl = (case exclude_patterns of None \<Rightarrow> default_exclude_patterns | Some s \<Rightarrow> s)
      in case tree_at fs repo_path of
           None \<Rightarrow> []
         | Some d \<Rightarrow> walk (extension_to_lang_name self) excl repo_path d)"

subsection \<open>Extraction\<close>

text \<open>
  The text of one capture: the bytes of the node, decoded, stripped of white space and
  then of the two quote characters.
\<close>

definition capture_text :: "env \<Rightarrow> bytes \<Rightarrow> node \<Rightarrow> string" where
  "capture_text e code_bytes n =
     strip (\<lambda>c. c = CHR 0x22 \<or> c = CHR 0x27)
       (strip isspace (decode_ignore e (slice code_bytes (start_byte n) (end_byte n))))"

text \<open>The loop over the captures into the set \<open>definitions\<close>, and \<open>sorted(list(definitions))\<close>.\<close>

definition sorted_definitions :: "env \<Rightarrow> (node \<times> string) list \<Rightarrow> bytes \<Rightarrow> string list" where
  "sorted_definitions e captures code_bytes =
     sorted_list_of_set (set (map (\<lambda>(n, tag). capture_text e code_bytes n) captures))"

definition extract_definitions :: "env \<Rightarrow> query \<Rightarrow> tree \<Rightarrow> bytes \<Rightarrow> exn + string list" where
  "extract_definitions e q root_node code_bytes =
     (case query_captures e q root_node of
        Inl x \<Rightarrow> Inl x
      | Inr captures \<Rightarrow> Inr (sorted_definitions e captures code_bytes))"

subsection \<open>The analysis of one file\<close>

type_synonym outcome = "exn + FileAnalysis option"

text \<open>
  The main parsing logic, from the first reading of the clock to the assembled result: the
  outcome and the state of the process. \<open>clock\<close> holds the two values \<open>time.time()\<close>
  returns, at the start and when the result is assembled.
\<close>

definition fresh_analysis ::
  "env \<Rightarrow> string \<Rightarrow> string \<Rightarrow> pyfloat \<times> pyfloat \<Rightarrow> source_file \<Rightarrow> worker
     \<Rightarrow> outcome \<times> worker" where
  "fresh_analysis e p lang_name clock stat w =
     (if \<not> readable stat
      then (Inr None, w\<lparr>events := events w @ [Log (WarningCouldNotRead p)]\<rparr>)
      else
        (case get_language_for_worker e lang_name w of
           (None, w') \<Rightarrow> (Inr None, w')
         | (Some d, w') \<Rightarrow>
             (case parser_parse e (parser_lang d) (content stat) of
                Inl x \<Rightarrow> (Inl x, w')
              | Inr t \<Rightarrow>
                  (case extract_definitions e (queries_functions d) t (content stat) of
                     Inl x \<Rightarrow> (Inl x, w')
                   | Inr fns \<Rightarrow>
                       (case extract_definitions e (queries_imports d) t (content stat) of
                          Inl x \<Rightarrow> (Inl x, w')
                        | Inr imps \<Rightarrow>
                            (Inr (Some \<lparr>file_path = p, functions = fns, imports = imps,
                                        language = lang_name,
                                        file_size = length (content stat),
                                        processing_time = snd clock - fst clock\<rparr>),
                             w'))))))"

text \<open>The digest the analysis of a file computes for itself, from the same three values.\<close>

definition hash_id :: "env \<Rightarrow> string \<Rightarrow> source_file \<Rightarrow> string" where
  "hash_id e p stat =
     md5_hexdigest e (p @ '':'' @ float_str e (st_mtime stat) @ '':'' @ str_nat (st_size stat))"

text \<open>The file of the cache directory that belongs to a source file.\<close>

definition cache_file_of :: "env \<Rightarrow> string \<Rightarrow> string \<Rightarrow> source_file \<Rightarrow> string" where
  "cache_file_of e cdir p stat = joinpath cdir (hash_id e p stat @ ''.json'')"

definition analyze_single_file ::
  "env \<Rightarrow> string \<Rightarrow> (string \<rightharpoonup> string) \<Rightarrow> string \<Rightarrow> bool \<Rightarrow> nat \<Rightarrow> pyfloat \<times> pyfloat
     \<Rightarrow> filesystem \<times> worker \<Rightarrow> outcome \<times> filesystem \<times> worker" where
  "analyze_single_file e p ext cdir use_c max_size clock st =
     (case st of (fs, w) \<Rightarrow>
        (case file_at fs p of
           None \<Rightarrow> (Inl FileNotFoundError, fs, w)
         | Some stat \<Rightarrow>
             if st_size stat > max_size then (Inr None, fs, w)
             else
               (case ext (lower (suffix p)) of
                  None \<Rightarrow> (Inr None, fs, w)
                | Some lang_name \<Rightarrow>
                    if lang_name = [] then (Inr None, fs, w)
                    else
                      (let cache_file = cache_file_of e cdir p stat
                       in case (if use_c then cache fs cache_file else None) of
                            Some (Entry a) \<Rightarrow> (Inr (Some a), fs, w)
                          | _ \<Rightarrow>
                              (case fresh_analysis e p lang_name clock stat w of
                                 (Inr (Some analysis), w') \<Rightarrow>
                                   (Inr (Some analysis),
                                    (if use_c then write_cache_file fs cache_file analysis
                                     else fs),
                                    w')
                               | (r, w') \<Rightarrow> (r, fs, w'))))))"

subsection \<open>The pool and the aggregation\<close>

text \<open>
  A run of the pool is the list of its tasks in the order they complete; each task names
  the process that runs it, its file and the two clock readings of that analysis. A task
  runs as a whole: the processes share the file system and nothing else.
\<close>

record task =
  task_worker :: nat
  task_path :: string
  task_clock :: "pyfloat \<times> pyfloat"

record pool =
  disk :: filesystem
  workers :: "nat \<Rightarrow> worker"

fun run_tasks ::
  "env \<Rightarrow> PerformantRepositoryParser \<Rightarrow> task list \<Rightarrow> pool \<Rightarrow> (string \<times> outcome) list \<times> pool" where
  "run_tasks e self [] pl = ([], pl)"
| "run_tasks e self (t # ts) pl =
     (case analyze_single_file e (task_path t) (extension_to_lang_name self) (cache_dir self)
             (use_cache self) (max_file_size self) (task_clock t)
             (disk pl, workers pl (task_worker t)) of
        (r, fs', w') \<Rightarrow>
          (case run_tasks e self ts
                  \<lparr>disk = fs', workers = (workers pl)(task_worker t := w')\<rparr> of
             (rs, pl') \<Rightarrow> ((task_path t, r) # rs, pl')))"

text \<open>A schedule for a list of candidate files runs each of them once, on a process of the pool.\<close>

definition valid_schedule :: "PerformantRepositoryParser \<Rightarrow> string list \<Rightarrow> task list \<Rightarrow> bool" where
  "valid_schedule self files_to_process sched =
     (mset (map task_path sched) = mset files_to_process
      \<and> list_all (\<lambda>t. task_worker t < max_workers self) sched)"

text \<open>The loop over \<open>as_completed\<close>: the results that are kept, the languages, the log.\<close>

fun as_completed_loop ::
  "(string \<times> outcome) list \<Rightarrow> FileAnalysis list \<times> string set \<times> event list
     \<Rightarrow> FileAnalysis list \<times> string set \<times> event list" where
  "as_completed_loop [] acc = acc"
| "as_completed_loop ((p, r) # rest) (analyses, langs, lg) =
     as_completed_loop rest
       (case r of
          Inl x \<Rightarrow> (analyses, langs, lg @ [ErrorWorkerFailed p])
        | Inr None \<Rightarrow> (analyses, langs, lg)
        | Inr (Some result) \<Rightarrow> (analyses @ [result], insert (language result) langs, lg))"

text \<open>What follows the pool: the totals and the \<open>RepositoryAnalysis\<close>.\<close>

definition aggregate ::
  "(string \<times> outcome) list \<Rightarrow> pyfloat \<Rightarrow> event list \<Rightarrow> RepositoryAnalysis \<times> event list" where
  "aggregate outcomes total_time lg =
     (case as_completed_loop outcomes ([], {}, lg) of
        (analyses, langs, lg') \<Rightarrow>
          (\<lparr>total_files = length analyses,
            total_functions = sum_list (map (\<lambda>a. length (functions a)) analyses),
            total_imports = sum_list (map (\<lambda>a. length (imports a)) analyses),
            languages_found = langs,
            processing_time = total_time,
            files = analyses\<rparr>,
           lg' @ [InfoCompleted]))"

definition analyze_repository ::
  "env \<Rightarrow> PerformantRepositoryParser \<Rightarrow> string \<Rightarrow> string set option \<Rightarrow> task list
     \<Rightarrow> pyfloat \<times> pyfloat \<Rightarrow> pool \<times> event list
     \<Rightarrow> (exn + RepositoryAnalysis) \<times> pool \<times> event list" where
  "analyze_repository e self repo_path exclude_patterns sched clock st =
     (case st of (pl, lg) \<Rightarrow>
        if tree_at (disk pl) repo_path = None then (Inl FileNotFoundError, pl, lg)
        else
          (let files_to_process = collect_files self (disk pl) repo_path exclude_patterns;
               lg1 = lg @ [InfoStarting repo_path, InfoFound (length files_to_process)]
           in if files_to_process = []
              then (Inr \<lparr>total_files = 0, total_functions = 0, total_imports = 0,
                         languages_found = {}, processing_time = 0, files = []\<rparr>,
                    pl, lg1)
              else
                (case run_tasks e self sched pl of
                   (outcomes, pl') \<Rightarrow>
                     (case aggregate outcomes (snd clock - fst clock) lg1 of
                        (result, lg2) \<Rightarrow> (Inr result, pl', lg2)))))"

section \<open>main.py\<close>

text \<open>
  The dictionary \<open>by_language\<close>, in insertion order. One turn of the loop that fills it
  gives a language that is new an empty list, and puts the result at the end of the list
  of its language.
\<close>

definition group_step ::
  "(string \<times> FileAnalysis list) list \<Rightarrow> FileAnalysis \<Rightarrow> (string \<times> FileAnalysis list) list" where
  "group_step groups file_analysis =
     map (\<lambda>(k, v). if k = language file_analysis then (k, v @ [file_analysis]) else (k, v))
       (if language file_analysis \<in> fst ` set groups then groups
        else groups @ [(language file_analysis, [])])"

fun by_language ::
  "FileAnalysis list \<Rightarrow> (string \<times> FileAnalysis list) list \<Rightarrow> (string \<times> FileAnalysis list) list" where
  "by_language [] groups = groups"
| "by_language (a # rest) groups = by_language rest (group_step groups a)"

text \<open>
  The detailed listing: the languages in ascending order and, under each, its files
  sorted by path, in the order the blocks are printed.
\<close>

definition display_listing :: "RepositoryAnalysis \<Rightarrow> (string \<times> FileAnalysis list) list" where
  "display_listing result =
     (let groups = by_language (files result) []
      in map (\<lambda>lang. (lang, sort_key file_path
                               (case map_of groups lang of Some fs \<Rightarrow> fs | None \<Rightarrow> [])))
           (sort (map fst groups)))"

text \<open>The report written with \<open>--output\<close>.\<close>

record output_data =
  summary_repository :: string
  summary_total_files :: nat
  summary_total_functions :: nat
  summary_total_imports :: nat
  summary_languages_found :: "string list"
  summary_processing_time :: pyfloat
  report_files :: "FileAnalysis list"

definition report :: "string \<Rightarrow> RepositoryAnalysis \<Rightarrow> output_data" where
  "report repo_path result =
     \<lparr>summary_repository = repo_path,
      summary_total_files = total_files result,
      summary_total_functions = total_functions result,
      summary_total_imports = total_imports result,
      summary_languages_found = sorted_list_of_set (languages_found result),
      summary_processing_time = RepositoryAnalysis.processing_time result,
      report_files = files result\<rparr>"

section \<open>Predicates of the specification\<close>

text \<open>The name lists of a result are in canonical form: ascending and free of duplicates.\<close>

definition canonical :: "FileAnalysis \<Rightarrow> bool" where
  "canonical a = (sorted (functions a) \<and> distinct (functions a)
                  \<and> sorted (imports a) \<and> distinct (imports a))"

text \<open>Every entry of the cache directory is in canonical form, as the entries the program writes are.\<close>

definition cache_canonical :: "filesystem \<Rightarrow> bool" where
  "cache_canonical fs = (\<forall>cf a. cache fs cf = Some (Entry a) \<longrightarrow> canonical a)"


text \<open>The results among the outcomes of a run, and the paths of the tasks that raised.\<close>

definition successes :: "(string \<times> outcome) list \<Rightarrow> FileAnalysis list" where
  "successes outs = List.map_filter (\<lambda>(p, r). case r of Inl x \<Rightarrow> None | Inr a \<Rightarrow> a) outs"

definition failures :: "(string \<times> outcome) list \<Rightarrow> string list" where
  "failures outs = List.map_filter (\<lambda>(p, r). case r of Inl x \<Rightarrow> Some p | Inr a \<Rightarrow> None) outs"

text \<open>
  What one analysis can do to the state of its process: nothing, a warning about a file
  that cannot be read, or one call of \<open>_get_language_for_worker\<close>.
\<close>

inductive worker_step :: "env \<Rightarrow> worker \<Rightarrow> worker \<Rightarrow> bool" for e :: env where
  same: "worker_step e w w"
| unread: "worker_step e w (w\<lparr>events := events w @ [Log (WarningCouldNotRead p)]\<rparr>)"
| load: "worker_step e w (snd (get_language_for_worker e lang_name w))"

text \<open>
  The trace of a process agrees with its dictionary: a language that is not a key has not
  been tried, no language has been tried twice, and a language has no more warnings than
  tries.
\<close>

definition load_recorded :: "worker \<Rightarrow> bool" where
  "load_recorded w =
     (\<forall>l. (WORKER_LANGUAGES w l = None \<longrightarrow> count_list (events w) (LoadAttempt l) = 0)
          \<and> count_list (events w) (LoadAttempt l) \<le> 1
          \<and> count_list (events w) (Log (WarningLoadFailed l))
              \<le> count_list (events w) (LoadAttempt l))"

text \<open>The text of which the fingerprint of a file is the digest.\<close>

definition stamp :: "env \<Rightarrow> string \<Rightarrow> source_file \<Rightarrow> string" where
  "stamp e p stat = p @ '':'' @ float_str e (st_mtime stat) @ '':'' @ str_nat (st_size stat)"

section \<open>A small world to run the program in\<close>

text \<open>
  An environment whose digest is the identity, whose floats print as a fraction, and whose
  engine knows every language but Go, fails on the file content \<open>crash\<close>, and reports one
  function name at bytes 4 to 5 and no import.
\<close>

definition str_int :: "int \<Rightarrow> string" where
  "str_int i = (if i < 0 then ''-'' @ str_nat (nat (- i)) else str_nat (nat i))"

definition demo_float_str :: "pyfloat \<Rightarrow> string" where
  "demo_float_str r = (case quotient_of r of (n, d) \<Rightarrow> str_int n @ ''/'' @ str_nat (nat d))"

definition demo_env :: env where
  "demo_env =
     \<lparr>md5_hexdigest = (\<lambda>s. s),
      float_str = demo_float_str,
      decode_ignore = (\<lambda>b. b),
      get_language = (\<lambda>name. if name = ''go'' then Inl EngineError else Inr (Language name)),
      language_query = (\<lambda>l pat. Inr (Query pat)),
      parser_parse = (\<lambda>l b. if b = ''crash'' then Inl EngineError else Inr (Tree b)),
      query_captures =
        (\<lambda>q t. case q of Query pat \<Rightarrow>
                  Inr (if take 1 pat = ''['' then [(Node 4 5, ''function.name'')] else []))\<rparr>"

definition demo_parser :: PerformantRepositoryParser where
  "demo_parser = init (Some 2) 100 True ''.repo_cache'' (Some 4)"

definition demo_file :: "bytes \<Rightarrow> source_file" where
  "demo_file b = \<lparr>st_mtime = 7, content = b, readable = True\<rparr>"

definition demo_fs :: filesystem where
  "demo_fs =
     \<lparr>tree_at = [''repo'' \<mapsto> Dir [(''.git'', Dir [] [''hook.py'']), (''src'', Dir [] [''b.py''])]
                                  [''a.py'', ''README.md'', ''big.py'']],
      file_at = [''repo/a.py'' \<mapsto> demo_file ''def f(): pass'',
                 ''repo/src/b.py'' \<mapsto> demo_file ''def g(): pass'',
                 ''repo/big.py'' \<mapsto> demo_file (replicate 101 CHR ''#'')],
      cache = Map.empty,
      cache_write = (\<lambda>cf. Written)\<rparr>"

definition demo_worker :: worker where
  "demo_worker = \<lparr>WORKER_LANGUAGES = Map.empty, events = []\<rparr>"


text \<open>The analysis of \<open>repo/a.py\<close> with the settings of \<open>demo_parser\<close>.\<close>

definition demo_analyze ::
  "bool \<Rightarrow> pyfloat \<times> pyfloat \<Rightarrow> filesystem \<times> worker \<Rightarrow> outcome \<times> filesystem \<times> worker" where
  "demo_analyze use_c clock st =
     analyze_single_file demo_env ''repo/a.py'' (extension_to_lang_name demo_parser)
       (cache_dir demo_parser) use_c (max_file_size demo_parser) clock st"

definition demo_a :: FileAnalysis where
  "demo_a = \<lparr>file_path = ''repo/a.py'', functions = [''f''], imports = [],
             language = ''python'', file_size = 13, processing_time = 5\<rparr>"

text \<open>The cache file of \<open>repo/a.py\<close>, and a file system where it is truncated.\<close>

definition demo_cf :: string where
  "demo_cf = cache_file_of demo_env (cache_dir demo_parser) ''repo/a.py''
               (demo_file ''def f(): pass'')"


text \<open>A first run that takes five seconds by the clock, and a second run right after it.\<close>

definition demo_run1 :: "outcome \<times> filesystem \<times> worker" where
  "demo_run1 = demo_analyze True (0, 5) (demo_fs, demo_worker)"

definition demo_run2 :: "outcome \<times> filesystem \<times> worker" where
  "demo_run2 = demo_analyze True (10, 10) (fst (snd demo_run1), demo_worker)"

text \<open>
  Three Go files, the last with an entry in the cache from an earlier run, all given to
  the first process of a fresh pool.
\<close>

definition demo_go_a :: FileAnalysis where
  "demo_go_a = \<lparr>file_path = ''repo/m.go'', functions = [''m''], imports = [],
                language = ''go'', file_size = 11, processing_time = 1\<rparr>"

definition demo_go_fs :: filesystem where
  "demo_go_fs =
     \<lparr>tree_at = [''repo'' \<mapsto> Dir [] [''n.go'', ''k.go'', ''m.go'']],
      file_at = [''repo/n.go'' \<mapsto> demo_file ''func n() {}'',
                 ''repo/k.go'' \<mapsto> demo_file ''func k() {}'',
                 ''repo/m.go'' \<mapsto> demo_file ''func m() {}''],
      cache = [cache_file_of demo_env (cache_dir demo_parser) ''repo/m.go''
                 (demo_file ''func m() {}'') \<mapsto> Entry demo_go_a],
      cache_write = (\<lambda>cf. Written)\<rparr>"

definition demo_go_sched :: "task list" where
  "demo_go_sched =
     [\<lparr>task_worker = 0, task_path = ''repo/n.go'', task_clock = (0, 1)\<rparr>,
      \<lparr>task_worker = 0, task_path = ''repo/k.go'', task_clock = (1, 2)\<rparr>,
      \<lparr>task_worker = 0, task_path = ''repo/m.go'', task_clock = (2, 3)\<rparr>]"

definition demo_go_run :: "(string \<times> outcome) list \<times> pool" where
  "demo_go_run =
     run_tasks demo_env demo_parser demo_go_sched
       \<lparr>disk = demo_go_fs, workers = (\<lambda>i. demo_worker)\<rparr>"

text \<open>
  Five candidate files, the third of which makes the engine raise, on a pool of two
  processes; the tasks complete in the order b, a, c, e, d.
\<close>

definition demo5_fs :: filesystem where
  "demo5_fs =
     \<lparr>tree_at = [''repo'' \<mapsto> Dir [] [''a.py'', ''b.py'', ''c.py'', ''d.py'', ''e.py'']],
      file_at = [''repo/a.py'' \<mapsto> demo_file ''def f(): pass'',
                 ''repo/b.py'' \<mapsto> demo_file ''def g(): pass'',
                 ''repo/c.py'' \<mapsto> demo_file ''crash'',
                 ''repo/d.py'' \<mapsto> demo_file ''def h(): pass'',
                 ''repo/e.py'' \<mapsto> demo_file ''def k(): pass''],
      cache = Map.empty,
      cache_write = (\<lambda>cf. Written)\<rparr>"

definition demo5_sched :: "task list" where
  "demo5_sched =
     [\<lparr>task_worker = 1, task_path = ''repo/b.py'', task_clock = (1, 2)\<rparr>,
      \<lparr>task_worker = 0, task_path = ''repo/a.py'', task_clock = (1, 3)\<rparr>,
      \<lparr>task_worker = 1, task_path = ''repo/c.py'', task_clock = (2, 4)\<rparr>,
      \<lparr>task_worker = 1, task_path = ''repo/e.py'', task_clock = (4, 5)\<rparr>,
      \<lparr>task_worker = 0, task_path = ''repo/d.py'', task_clock = (3, 6)\<rparr>]"

definition demo5_run :: "(exn + RepositoryAnalysis) \<times> pool \<times> event list" where
  "demo5_run =
     analyze_repository demo_env demo_parser ''repo'' None demo5_sched (0, 7)
       (\<lparr>disk = demo5_fs, workers = (\<lambda>i. demo_worker)\<rparr>, [])"


text \<open>The outcomes of the five tasks, in the order they complete.\<close>

definition demo5_outs :: "(string \<times> outcome) list" where
  "demo5_outs =
     fst (run_tasks demo_env demo_parser demo5_sched
            \<lparr>disk = demo5_fs, workers = (\<lambda>i. demo_worker)\<rparr>)"

text \<open>
  A digest of fixed length, which therefore has collisions: the first 32 characters of the
  text, filled up with zeros. The environment \<open>demo_env32\<close> uses it.
\<close>

definition fixed32 :: "string \<Rightarrow> string" where
  "fixed32 s = take 32 (s @ replicate 32 CHR ''0'')"

definition demo_env32 :: env where
  "demo_env32 = demo_env\<lparr>md5_hexdigest := fixed32\<rparr>"

text \<open>
  Two file systems whose cache file for \<open>repo/a.py\<close> was not written by this program but
  loads without an error: one with names out of order and twice, one with other values
  altogether.
\<close>

definition demo_stale_a :: FileAnalysis where
  "demo_stale_a = \<lparr>file_path = ''repo/a.py'', functions = [''b'', ''a'', ''a''], imports = [],
                   language = ''python'', file_size = 13, processing_time = 1\<rparr>"

definition demo_stale_fs :: filesystem where
  "demo_stale_fs = demo_fs\<lparr>cache := [demo_cf \<mapsto> Entry demo_stale_a]\<rparr>"




section \<open>Extraction is canonical\<close>

lemma sorted_definitions_sorted: "sorted (sorted_definitions e captures code_bytes)"
  by (simp add: sorted_definitions_def)

lemma sorted_definitions_distinct: "distinct (sorted_definitions e captures code_bytes)"
  by (simp add: sorted_definitions_def)

lemma sorted_definitions_perm:
  assumes "mset captures' = mset captures"
  shows "sorted_definitions e captures' code_bytes = sorted_definitions e captures code_bytes"
proof -
  have "set captures' = set captures"
    using assms by (rule mset_eq_setD)
  then show ?thesis
    by (simp add: sorted_definitions_def)
qed

lemma extract_definitions_Inr:
  "extract_definitions e q t code_bytes = Inr ns \<Longrightarrow> sorted ns \<and> distinct ns"
  by (auto simp: extract_definitions_def sorted_definitions_sorted sorted_definitions_distinct
           split: sum.splits)

lemma write_cache_file_canonical:
  "cache_canonical fs \<Longrightarrow> canonical a \<Longrightarrow> cache_canonical (write_cache_file fs cf a)"
  by (auto simp: cache_canonical_def write_cache_file_def split: write_result.splits)

text \<open>What a result of the fresh path is made of.\<close>

lemma fresh_analysis_result:
  assumes "fresh_analysis e p lang_name clock stat w = (Inr (Some a), w')"
  shows "\<exists>d t fns imps.
           readable stat
           \<and> get_language_for_worker e lang_name w = (Some d, w')
           \<and> parser_parse e (parser_lang d) (content stat) = Inr t
           \<and> extract_definitions e (queries_functions d) t (content stat) = Inr fns
           \<and> extract_definitions e (queries_imports d) t (content stat) = Inr imps
           \<and> a = \<lparr>file_path = p, functions = fns, imports = imps, language = lang_name,
                   file_size = length (content stat),
                   processing_time = snd clock - fst clock\<rparr>"
  using assms
  by (auto simp: fresh_analysis_def
           split: if_splits prod.splits option.splits sum.splits)

lemma fresh_analysis_canonical:
  assumes "fresh_analysis e p lang_name clock stat w = (Inr (Some a), w')"
  shows "canonical a"
  using fresh_analysis_result [OF assms]
  by (auto simp: canonical_def dest!: extract_definitions_Inr)

text \<open>The three ways through the analysis of a file that exists.\<close>

lemma analyze_single_file_skip:
  assumes "file_at fs p = Some stat"
    and "st_size stat > max_size \<or> ext (lower (suffix p)) = None
         \<or> ext (lower (suffix p)) = Some []"
  shows "analyze_single_file e p ext cdir use_c max_size clock (fs, w) = (Inr None, fs, w)"
  using assms by (auto simp: analyze_single_file_def)

lemma analyze_single_file_hit:
  assumes "file_at fs p = Some stat" and "\<not> st_size stat > max_size"
    and "ext (lower (suffix p)) = Some lang_name" and "lang_name \<noteq> []"
    and "use_c" and "cache fs (cache_file_of e cdir p stat) = Some (Entry a)"
  shows "analyze_single_file e p ext cdir use_c max_size clock (fs, w) = (Inr (Some a), fs, w)"
  using assms by (simp add: analyze_single_file_def)

lemma analyze_single_file_miss:
  assumes "file_at fs p = Some stat" and "\<not> st_size stat > max_size"
    and "ext (lower (suffix p)) = Some lang_name" and "lang_name \<noteq> []"
    and "\<not> (use_c \<and> (\<exists>b. cache fs (cache_file_of e cdir p stat) = Some (Entry b)))"
  shows "analyze_single_file e p ext cdir use_c max_size clock (fs, w)
         = (case fresh_analysis e p lang_name clock stat w of
              (Inr (Some analysis), w') \<Rightarrow>
                (Inr (Some analysis),
                 (if use_c then write_cache_file fs (cache_file_of e cdir p stat) analysis
                  else fs),
                 w')
            | (r, w') \<Rightarrow> (r, fs, w'))"
  using assms
  by (auto simp: analyze_single_file_def Let_def split: option.splits cache_file.splits)

text \<open>A result is either the entry of the cache or the outcome of the fresh path.\<close>

lemma analyze_single_file_result:
  assumes "analyze_single_file e p ext cdir use_c max_size clock (fs, w) = (Inr (Some a), fs', w')"
  shows "\<exists>stat lang_name.
           file_at fs p = Some stat \<and> \<not> st_size stat > max_size
           \<and> ext (lower (suffix p)) = Some lang_name \<and> lang_name \<noteq> []
           \<and> ((use_c \<and> cache fs (cache_file_of e cdir p stat) = Some (Entry a)
                \<and> fs' = fs \<and> w' = w)
               \<or> (\<not> (use_c \<and> (\<exists>b. cache fs (cache_file_of e cdir p stat) = Some (Entry b)))
                   \<and> fresh_analysis e p lang_name clock stat w = (Inr (Some a), w')
                   \<and> fs' = (if use_c then write_cache_file fs (cache_file_of e cdir p stat) a
                            else fs)))"
proof -
  from assms obtain stat where stat: "file_at fs p = Some stat"
    by (auto simp: analyze_single_file_def split: option.splits)
  have skip: "\<not> (st_size stat > max_size \<or> ext (lower (suffix p)) = None
                   \<or> ext (lower (suffix p)) = Some [])"
  proof
    assume "st_size stat > max_size \<or> ext (lower (suffix p)) = None
            \<or> ext (lower (suffix p)) = Some []"
    with stat have "analyze_single_file e p ext cdir use_c max_size clock (fs, w)
                      = (Inr None, fs, w)"
      by (rule analyze_single_file_skip)
    with assms show False by simp
  qed
  then have small: "\<not> st_size stat > max_size"
    by blast
  from skip obtain lang_name where lang: "ext (lower (suffix p)) = Some lang_name" "lang_name \<noteq> []"
    by (cases "ext (lower (suffix p))") auto
  show ?thesis
  proof (cases "use_c \<and> (\<exists>b. cache fs (cache_file_of e cdir p stat) = Some (Entry b))")
    case True
    then obtain b where b: "cache fs (cache_file_of e cdir p stat) = Some (Entry b)" and u: use_c
      by blast
    from analyze_single_file_hit [where ext = ext, OF stat small lang u b] assms
    have "b = a" "fs' = fs" "w' = w" by simp_all
    with stat small lang u b show ?thesis by blast
  next
    case False
    note m = analyze_single_file_miss [where ext = ext, OF stat small lang False, of clock w]
    obtain r w1 where f: "fresh_analysis e p lang_name clock stat w = (r, w1)"
      by (cases "fresh_analysis e p lang_name clock stat w")
    from m f assms have "r = Inr (Some a) \<and> w1 = w'
        \<and> fs' = (if use_c then write_cache_file fs (cache_file_of e cdir p stat) a else fs)"
      by (auto split: sum.splits option.splits)
    with f stat small lang False show ?thesis by blast
  qed
qed

lemma analyze_single_file_canonical:
  assumes "analyze_single_file e p ext cdir use_c max_size clock (fs, w) = (Inr (Some a), fs', w')"
    and "cache_canonical fs"
  shows "canonical a \<and> cache_canonical fs'"
proof -
  from analyze_single_file_result [OF assms(1)] obtain stat lang_name where
    d: "(use_c \<and> cache fs (cache_file_of e cdir p stat) = Some (Entry a) \<and> fs' = fs \<and> w' = w)
        \<or> (fresh_analysis e p lang_name clock stat w = (Inr (Some a), w')
            \<and> fs' = (if use_c then write_cache_file fs (cache_file_of e cdir p stat) a else fs))"
    by blast
  then show ?thesis
  proof
    assume "use_c \<and> cache fs (cache_file_of e cdir p stat) = Some (Entry a) \<and> fs' = fs \<and> w' = w"
    with assms(2) show ?thesis
      by (auto simp: cache_canonical_def)
  next
    assume f: "fresh_analysis e p lang_name clock stat w = (Inr (Some a), w')
            \<and> fs' = (if use_c then write_cache_file fs (cache_file_of e cdir p stat) a else fs)"
    then have "canonical a"
      using fresh_analysis_canonical by blast
    with f assms(2) show ?thesis
      by (simp add: write_cache_file_canonical)
  qed
qed

text \<open>
  Claim C3, as the code has it. A result that comes from a fresh analysis, or from a cache
  whose entries are in canonical form (as the entries this program writes are), has a
  list of functions and a list of imports that are ascending and free of duplicates; the
  analysis keeps the cache in that form; and the extraction gives the same list for any
  two orders of the same captures.
\<close>

theorem analysis_lists_canonical:
  assumes "analyze_single_file e p ext cdir use_c max_size clock (fs, w) = (Inr (Some a), fs', w')"
    and "file_at fs p = Some stat"
    and "\<not> (use_c \<and> (\<exists>b. cache fs (cache_file_of e cdir p stat) = Some (Entry b)))
         \<or> cache_canonical fs"
  shows "sorted (functions a) \<and> distinct (functions a)
         \<and> sorted (imports a) \<and> distinct (imports a)
         \<and> (cache_canonical fs \<longrightarrow> cache_canonical fs')
         \<and> (\<forall>captures captures' code_bytes.
               mset captures' = mset captures \<longrightarrow>
               sorted_definitions e captures' code_bytes
                 = sorted_definitions e captures code_bytes)"
proof -
  from analyze_single_file_result [OF assms(1)] assms(2) obtain lang_name where
    d: "(use_c \<and> cache fs (cache_file_of e cdir p stat) = Some (Entry a))
        \<or> (\<not> (use_c \<and> (\<exists>b. cache fs (cache_file_of e cdir p stat) = Some (Entry b)))
            \<and> fresh_analysis e p lang_name clock stat w = (Inr (Some a), w'))"
    by auto
  have c: "canonical a"
  proof (cases "use_c \<and> (\<exists>b. cache fs (cache_file_of e cdir p stat) = Some (Entry b))")
    case True
    with assms(3) have "cache_canonical fs"
      by blast
    moreover from True d have "cache fs (cache_file_of e cdir p stat) = Some (Entry a)"
      by blast
    ultimately show ?thesis
      unfolding cache_canonical_def by blast
  next
    case False
    with d have "fresh_analysis e p lang_name clock stat w = (Inr (Some a), w')"
      by blast
    then show ?thesis
      by (rule fresh_analysis_canonical)
  qed
  have k: "cache_canonical fs \<longrightarrow> cache_canonical fs'"
    using analyze_single_file_canonical [OF assms(1)] by blast
  have "\<forall>captures captures' code_bytes.
               mset captures' = mset captures \<longrightarrow>
               sorted_definitions e captures' code_bytes
                 = sorted_definitions e captures code_bytes"
    by (intro allI impI) (rule sorted_definitions_perm)
  with c k show ?thesis
    unfolding canonical_def by blast
qed

theorem analysis_lists_canonical_witness:
  "file_at demo_fs ''repo/a.py'' = Some (demo_file ''def f(): pass'')
   \<and> cache demo_fs (cache_file_of demo_env ''.repo_cache'' ''repo/a.py''
                      (demo_file ''def f(): pass'')) = None
   \<and> fst (analyze_single_file demo_env ''repo/a.py'' (extension_to_lang_name demo_parser)
            ''.repo_cache'' True 100 (0, 5) (demo_fs, demo_worker))
       = Inr (Some \<lparr>file_path = ''repo/a.py'', functions = [''f''], imports = [],
                    language = ''python'', file_size = 13, processing_time = 5\<rparr>)
   \<and> sorted [''f''] \<and> distinct [''f'']
   \<and> sorted_definitions demo_env
        [(Node 4 5, ''a''), (Node 0 3, ''b''), (Node 4 5, ''c'')] ''def f(): pass''
       = sorted_definitions demo_env
           [(Node 0 3, ''b''), (Node 4 5, ''c''), (Node 4 5, ''a'')] ''def f(): pass''"
proof -
  let ?r = "analyze_single_file demo_env ''repo/a.py'' (extension_to_lang_name demo_parser)
              ''.repo_cache'' True 100 (0, 5) (demo_fs, demo_worker)"
  let ?a = "\<lparr>file_path = ''repo/a.py'', functions = [''f''], imports = [],
              language = ''python'', file_size = 13, processing_time = 5\<rparr>"
  have h0: "file_at demo_fs ''repo/a.py'' = Some (demo_file ''def f(): pass'')"
    by (simp add: demo_fs_def)
  have h1: "cache demo_fs (cache_file_of demo_env ''.repo_cache'' ''repo/a.py''
                      (demo_file ''def f(): pass'')) = None"
    by (simp add: demo_fs_def)
  then have h1': "\<not> (True \<and> (\<exists>b. cache demo_fs (cache_file_of demo_env ''.repo_cache''
                     ''repo/a.py'' (demo_file ''def f(): pass'')) = Some (Entry b)))
                 \<or> cache_canonical demo_fs"
    by simp
  have h2: "fst ?r = Inr (Some ?a)"
    by code_simp
  then have h3: "?r = (Inr (Some ?a), fst (snd ?r), snd (snd ?r))"
    by (simp add: prod_eq_iff)
  have h4: "mset [(Node 0 3, ''b''), (Node 4 5, ''c''), (Node 4 5, ''a'')]
              = mset [(Node 4 5, ''a''), (Node 0 3, ''b''), (Node 4 5, ''c'')]"
    by simp
  note t = analysis_lists_canonical [OF h3 h0 h1']
  note h5 = t [THEN conjunct1]
  note h6 = t [THEN conjunct2, THEN conjunct1]
  note h7 = t [THEN conjunct2, THEN conjunct2, THEN conjunct2, THEN conjunct2,
               THEN conjunct2, rule_format, OF h4]
  from h5 have h8: "sorted [''f'']"
    by simp
  from h6 have h9: "distinct [''f'']"
    by simp
  from h7 have h10: "sorted_definitions demo_env
        [(Node 4 5, ''a''), (Node 0 3, ''b''), (Node 4 5, ''c'')] ''def f(): pass''
       = sorted_definitions demo_env
           [(Node 0 3, ''b''), (Node 4 5, ''c''), (Node 4 5, ''a'')] ''def f(): pass''"
    by (rule sym)
  show ?thesis
    apply (rule conjI, rule h0)
    apply (rule conjI, rule h1)
    apply (rule conjI, rule h2)
    apply (rule conjI, rule h8)
    apply (rule conjI, rule h9)
    apply (rule h10)
    done
qed

text \<open>
  Claim C3 as stated fails for results served from the cache: the entry below loads
  without an error and is returned as it is, with its names out of order and one of them
  twice.
\<close>

theorem cached_lists_counterexample:
  "fst (demo_analyze True (0, 5) (demo_stale_fs, demo_worker)) = Inr (Some demo_stale_a)
   \<and> functions demo_stale_a = [''b'', ''a'', ''a'']
   \<and> \<not> sorted [''b'', ''a'', ''a''] \<and> \<not> distinct [''b'', ''a'', ''a'']"
  by code_simp


section \<open>The fingerprint\<close>

text \<open>Decimal numerals determine their number and hold digits only.\<close>

lemma digit_inj:
  assumes "m < 10" "n < 10" "''0123456789'' ! m = ''0123456789'' ! n"
  shows "m = n"
proof -
  have "distinct ''0123456789''" by simp
  moreover have "m < length ''0123456789''" "n < length ''0123456789''"
    using assms by simp_all
  ultimately show ?thesis
    using assms(3) nth_eq_iff_index_eq by blast
qed

lemma digit_in: "n < 10 \<Longrightarrow> ''0123456789'' ! n \<in> set ''0123456789''"
  by (rule nth_mem) simp

lemma str_nat_digits: "set (str_nat n) \<subseteq> set ''0123456789''"
proof (induction n rule: str_nat.induct)
  case (1 n)
  show ?case
  proof (cases "n < 10")
    case True
    then show ?thesis
      using digit_in [of n] by (subst str_nat.simps) simp
  next
    case False
    then have "set (str_nat (n div 10)) \<subseteq> set ''0123456789''"
      using "1" by simp
    moreover have "''0123456789'' ! (n mod 10) \<in> set ''0123456789''"
      by (rule digit_in) simp
    ultimately show ?thesis
      using False by (subst str_nat.simps) simp
  qed
qed

lemma str_nat_nonempty: "str_nat n \<noteq> []"
  by (subst str_nat.simps) simp

lemma str_nat_inj: "str_nat m = str_nat n \<Longrightarrow> m = n"
proof (induction m arbitrary: n rule: str_nat.induct)
  case (1 m)
  show ?case
  proof (cases "m < 10")
    case m: True
    show ?thesis
    proof (cases "n < 10")
      case True
      with m "1.prems" show ?thesis
        by (simp add: str_nat.simps [of m] str_nat.simps [of n] digit_inj)
    next
      case False
      with m "1.prems" show ?thesis
        by (simp add: str_nat.simps [of m] str_nat.simps [of n] str_nat_nonempty str_nat_nonempty [symmetric])
    qed
  next
    case m: False
    show ?thesis
    proof (cases "n < 10")
      case True
      with m "1.prems" show ?thesis
        by (simp add: str_nat.simps [of m] str_nat.simps [of n] str_nat_nonempty str_nat_nonempty [symmetric])
    next
      case False
      with m "1.prems" have a: "str_nat (m div 10) = str_nat (n div 10)"
        and b: "''0123456789'' ! (m mod 10) = ''0123456789'' ! (n mod 10)"
        by (simp_all add: str_nat.simps [of m] str_nat.simps [of n])
      from a m have "m div 10 = n div 10"
        using "1.IH" by simp
      moreover from b have "m mod 10 = n mod 10"
        by (intro digit_inj) simp_all
      ultimately show ?thesis
        by (metis div_mult_mod_eq)
    qed
  qed
qed

lemma str_nat_eq_iff: "str_nat m = str_nat n \<longleftrightarrow> m = n"
  using str_nat_inj by blast

lemma str_nat_no_colon: "CHR '':'' \<notin> set (str_nat n)"
  using str_nat_digits [of n] by auto

lemma str_nat_no_slash: "CHR ''/'' \<notin> set (str_nat n)"
  using str_nat_digits [of n] by auto

lemma str_nat_no_minus: "CHR ''-'' \<notin> set (str_nat n)"
  using str_nat_digits [of n] by auto

lemma str_int_inj: "str_int i = str_int j \<Longrightarrow> i = j"
proof -
  assume eq: "str_int i = str_int j"
  have hd_minus: "\<And>n. hd (str_nat n) \<noteq> CHR ''-''"
    using str_nat_no_minus str_nat_nonempty by (metis hd_in_set)
  show ?thesis
  proof (cases "i < 0")
    case i: True
    show ?thesis
    proof (cases "j < 0")
      case True
      with i eq have "str_nat (nat (- i)) = str_nat (nat (- j))"
        by (simp add: str_int_def)
      then have "nat (- i) = nat (- j)" by (rule str_nat_inj)
      with i True show ?thesis by simp
    next
      case False
      with i eq have "CHR ''-'' # str_nat (nat (- i)) = str_nat (nat j)"
        by (simp add: str_int_def)
      then have "hd (str_nat (nat j)) = CHR ''-''" by (metis list.sel(1))
      with hd_minus show ?thesis by blast
    qed
  next
    case i: False
    show ?thesis
    proof (cases "j < 0")
      case True
      with i eq have "str_nat (nat i) = CHR ''-'' # str_nat (nat (- j))"
        by (simp add: str_int_def)
      then have "hd (str_nat (nat i)) = CHR ''-''" by (metis list.sel(1))
      with hd_minus show ?thesis by blast
    next
      case False
      with i eq have "str_nat (nat i) = str_nat (nat j)"
        by (simp add: str_int_def)
      then have "nat i = nat j" by (rule str_nat_inj)
      with i False show ?thesis by simp
    qed
  qed
qed

lemma str_int_no_slash: "CHR ''/'' \<notin> set (str_int i)"
  by (simp add: str_int_def str_nat_no_slash)

lemma str_int_no_colon: "CHR '':'' \<notin> set (str_int i)"
  by (simp add: str_int_def str_nat_no_colon)

lemma demo_float_str_inj: "inj demo_float_str"
proof (rule injI)
  fix r s :: rat
  assume eq: "demo_float_str r = demo_float_str s"
  obtain a b where r: "quotient_of r = (a, b)" by (cases "quotient_of r")
  obtain c d where s: "quotient_of s = (c, d)" by (cases "quotient_of s")
  from eq r s have "str_int a @ CHR ''/'' # str_nat (nat b) = str_int c @ CHR ''/'' # str_nat (nat d)"
    by (simp add: demo_float_str_def)
  then have "str_int a = str_int c \<and> str_nat (nat b) = str_nat (nat d)"
    using append_Cons_eq_iff [OF str_int_no_slash str_nat_no_slash] by blast
  then have "a = c" and "nat b = nat d"
    by (auto dest: str_int_inj str_nat_inj)
  moreover have "b > 0" "d > 0"
    using r s quotient_of_denom_pos by blast+
  ultimately have "quotient_of r = quotient_of s"
    using r s by simp
  then show "r = s"
    by (simp add: quotient_of_inject)
qed

lemma demo_float_str_no_colon: "CHR '':'' \<notin> set (demo_float_str r)"
  by (simp add: demo_float_str_def str_int_no_colon str_nat_no_colon split: prod.splits)

text \<open>The text that is hashed determines the time and the size, for a given path.\<close>

lemma stamp_eq_iff:
  assumes "CHR '':'' \<notin> set (float_str e (st_mtime s1))"
    and "float_str e (st_mtime s1) = float_str e (st_mtime s2) \<longrightarrow> st_mtime s1 = st_mtime s2"
  shows "stamp e p s1 = stamp e p s2 \<longleftrightarrow> st_mtime s1 = st_mtime s2 \<and> st_size s1 = st_size s2"
proof -
  have "stamp e p s1 = stamp e p s2
        \<longleftrightarrow> float_str e (st_mtime s1) @ CHR '':'' # str_nat (st_size s1)
            = float_str e (st_mtime s2) @ CHR '':'' # str_nat (st_size s2)"
    by (simp add: stamp_def)
  also have "\<dots> \<longleftrightarrow> float_str e (st_mtime s1) = float_str e (st_mtime s2)
                  \<and> str_nat (st_size s1) = str_nat (st_size s2)"
    by (rule append_Cons_eq_iff [OF assms(1) str_nat_no_colon])
  also have "\<dots> \<longleftrightarrow> st_mtime s1 = st_mtime s2 \<and> st_size s1 = st_size s2"
    using assms(2) by (auto simp: str_nat_eq_iff)
  finally show ?thesis .
qed

lemma hash_id_stamp: "hash_id e p s = md5_hexdigest e (stamp e p s)"
  by (simp add: hash_id_def stamp_def)

lemma get_file_hash_hash_id:
  "file_at fs p = Some s \<Longrightarrow> get_file_hash e fs p = Inr (hash_id e p s)"
  by (simp add: get_file_hash_def hash_id_def)

lemma hash_id_iff:
  assumes "md5_hexdigest e (stamp e p s1) = md5_hexdigest e (stamp e p s2)
           \<longrightarrow> stamp e p s1 = stamp e p s2"
    and "float_str e (st_mtime s1) = float_str e (st_mtime s2) \<longrightarrow> st_mtime s1 = st_mtime s2"
    and "CHR '':'' \<notin> set (float_str e (st_mtime s1))"
  shows "hash_id e p s1 = hash_id e p s2
         \<longleftrightarrow> st_mtime s1 = st_mtime s2 \<and> st_size s1 = st_size s2"
proof -
  have "hash_id e p s1 = hash_id e p s2 \<longleftrightarrow> stamp e p s1 = stamp e p s2"
    using assms(1) by (auto simp: hash_id_stamp)
  also have "\<dots> \<longleftrightarrow> st_mtime s1 = st_mtime s2 \<and> st_size s1 = st_size s2"
    using assms(3) assms(2) by (rule stamp_eq_iff)
  finally show ?thesis .
qed

text \<open>
  Claim C5. For one path, the fingerprint is the same in two states of the file system
  exactly when the modification time and the size of the file are the same in both; the
  content of the file plays no part. What is taken of the library is what the
  specification assumes: the digest does not collide on the two texts that are compared,
  and the texts of the two times differ when the times do and hold no colon.
\<close>

theorem fingerprint_iff:
  assumes "md5_hexdigest e (stamp e p s1) = md5_hexdigest e (stamp e p s2)
           \<longrightarrow> stamp e p s1 = stamp e p s2"
    and "float_str e (st_mtime s1) = float_str e (st_mtime s2) \<longrightarrow> st_mtime s1 = st_mtime s2"
    and "CHR '':'' \<notin> set (float_str e (st_mtime s1))"
    and "file_at fs1 p = Some s1" and "file_at fs2 p = Some s2"
  shows "(get_file_hash e fs1 p = get_file_hash e fs2 p
            \<longleftrightarrow> st_mtime s1 = st_mtime s2 \<and> st_size s1 = st_size s2)
         \<and> (hash_id e p s1 = hash_id e p s2
            \<longleftrightarrow> st_mtime s1 = st_mtime s2 \<and> st_size s1 = st_size s2)"
proof -
  note h = hash_id_iff [OF assms(1-3)]
  have "get_file_hash e fs1 p = get_file_hash e fs2 p \<longleftrightarrow> hash_id e p s1 = hash_id e p s2"
    by (simp add: get_file_hash_hash_id [OF assms(4)] get_file_hash_hash_id [OF assms(5)])
  with h show ?thesis
    by blast
qed

theorem fingerprint_iff_witness:
  "fixed32 (replicate 33 CHR ''x'') = fixed32 (replicate 34 CHR ''x'')
   \<and> CHR '':'' \<notin> set (float_str demo_env32 7)
   \<and> get_file_hash demo_env32 demo_fs ''repo/a.py''
       = get_file_hash demo_env32
           (demo_fs\<lparr>file_at := [''repo/a.py'' \<mapsto> demo_file ''def g(): pass'']\<rparr>) ''repo/a.py''
   \<and> get_file_hash demo_env32 demo_fs ''repo/a.py''
       \<noteq> get_file_hash demo_env32
           (demo_fs\<lparr>file_at := [''repo/a.py'' \<mapsto> demo_file ''def f(): return'']\<rparr>) ''repo/a.py''
   \<and> get_file_hash demo_env32 demo_fs ''repo/a.py''
       \<noteq> get_file_hash demo_env32
           (demo_fs\<lparr>file_at := [''repo/a.py'' \<mapsto> (demo_file ''def f(): pass'')\<lparr>st_mtime := 8\<rparr>]\<rparr>)
           ''repo/a.py''"
proof -
  let ?s1 = "demo_file ''def f(): pass''"
  let ?s2 = "demo_file ''def g(): pass''"
  let ?s3 = "demo_file ''def f(): return''"
  let ?s4 = "(demo_file ''def f(): pass'')\<lparr>st_mtime := 8\<rparr>"
  have c: "fixed32 (replicate 33 CHR ''x'') = fixed32 (replicate 34 CHR ''x'')"
    by code_simp
  have n: "CHR '':'' \<notin> set (float_str demo_env32 7)"
    by (simp add: demo_env32_def demo_env_def demo_float_str_no_colon)
  have n1: "CHR '':'' \<notin> set (float_str demo_env32 (st_mtime ?s1))"
    using n by (simp add: demo_file_def)
  have f1: "file_at demo_fs ''repo/a.py'' = Some ?s1"
    by (simp add: demo_fs_def)
  have f2: "file_at (demo_fs\<lparr>file_at := [''repo/a.py'' \<mapsto> ?s2]\<rparr>) ''repo/a.py'' = Some ?s2"
    by simp
  have f3: "file_at (demo_fs\<lparr>file_at := [''repo/a.py'' \<mapsto> ?s3]\<rparr>) ''repo/a.py'' = Some ?s3"
    by simp
  have f4: "file_at (demo_fs\<lparr>file_at := [''repo/a.py'' \<mapsto> ?s4]\<rparr>) ''repo/a.py'' = Some ?s4"
    by simp
  have d2: "md5_hexdigest demo_env32 (stamp demo_env32 ''repo/a.py'' ?s1)
              = md5_hexdigest demo_env32 (stamp demo_env32 ''repo/a.py'' ?s2)
            \<longrightarrow> stamp demo_env32 ''repo/a.py'' ?s1 = stamp demo_env32 ''repo/a.py'' ?s2"
    by code_simp
  have d3: "md5_hexdigest demo_env32 (stamp demo_env32 ''repo/a.py'' ?s1)
              = md5_hexdigest demo_env32 (stamp demo_env32 ''repo/a.py'' ?s3)
            \<longrightarrow> stamp demo_env32 ''repo/a.py'' ?s1 = stamp demo_env32 ''repo/a.py'' ?s3"
    by code_simp
  have d4: "md5_hexdigest demo_env32 (stamp demo_env32 ''repo/a.py'' ?s1)
              = md5_hexdigest demo_env32 (stamp demo_env32 ''repo/a.py'' ?s4)
            \<longrightarrow> stamp demo_env32 ''repo/a.py'' ?s1 = stamp demo_env32 ''repo/a.py'' ?s4"
    by code_simp
  have t2: "float_str demo_env32 (st_mtime ?s1) = float_str demo_env32 (st_mtime ?s2)
            \<longrightarrow> st_mtime ?s1 = st_mtime ?s2"
    by (simp add: demo_file_def)
  have t3: "float_str demo_env32 (st_mtime ?s1) = float_str demo_env32 (st_mtime ?s3)
            \<longrightarrow> st_mtime ?s1 = st_mtime ?s3"
    by (simp add: demo_file_def)
  have t4: "float_str demo_env32 (st_mtime ?s1) = float_str demo_env32 (st_mtime ?s4)
            \<longrightarrow> st_mtime ?s1 = st_mtime ?s4"
    by code_simp
  have a: "get_file_hash demo_env32 demo_fs ''repo/a.py''
       = get_file_hash demo_env32 (demo_fs\<lparr>file_at := [''repo/a.py'' \<mapsto> ?s2]\<rparr>) ''repo/a.py''"
    using fingerprint_iff [OF d2 t2 n1 f1 f2, THEN conjunct1]
    by (simp add: demo_file_def st_size_def)
  have b: "get_file_hash demo_env32 demo_fs ''repo/a.py''
       \<noteq> get_file_hash demo_env32 (demo_fs\<lparr>file_at := [''repo/a.py'' \<mapsto> ?s3]\<rparr>) ''repo/a.py''"
    using fingerprint_iff [OF d3 t3 n1 f1 f3, THEN conjunct1]
    by (simp add: demo_file_def st_size_def)
  have m: "get_file_hash demo_env32 demo_fs ''repo/a.py''
       \<noteq> get_file_hash demo_env32 (demo_fs\<lparr>file_at := [''repo/a.py'' \<mapsto> ?s4]\<rparr>) ''repo/a.py''"
    using fingerprint_iff [OF d4 t4 n1 f1 f4, THEN conjunct1]
    by (simp add: demo_file_def st_size_def)
  from c n a b m show ?thesis
    by (intro conjI)
qed


section \<open>The cache\<close>




text \<open>The digest reads the time and the size of the file, and nothing else of it.\<close>

lemma cache_file_of_cong:
  "st_mtime s2 = st_mtime s1 \<Longrightarrow> st_size s2 = st_size s1
     \<Longrightarrow> cache_file_of e cdir p s2 = cache_file_of e cdir p s1"
  by (simp add: cache_file_of_def hash_id_def)







text \<open>After an analysis that returned a result, the cache holds that result if it could be written.\<close>

lemma result_is_cached:
  assumes run: "analyze_single_file e p ext cdir True max_size clock (fs, w) = (Inr (Some a), fs', w')"
    and stat: "file_at fs p = Some stat"
    and written: "cache_write fs (cache_file_of e cdir p stat) = Written"
  shows "cache fs' (cache_file_of e cdir p stat) = Some (Entry a)"
    and "\<not> st_size stat > max_size"
    and "\<exists>lang_name. ext (lower (suffix p)) = Some lang_name \<and> lang_name \<noteq> []"
    and "(\<forall>b. cache fs (cache_file_of e cdir p stat) \<noteq> Some (Entry b))
         \<longrightarrow> FileAnalysis.processing_time a = snd clock - fst clock"
proof -
  from analyze_single_file_result [OF run] stat obtain lang_name where
    small: "\<not> st_size stat > max_size"
    and lang: "ext (lower (suffix p)) = Some lang_name" "lang_name \<noteq> []"
    and d: "(cache fs (cache_file_of e cdir p stat) = Some (Entry a) \<and> fs' = fs \<and> w' = w)
            \<or> ((\<forall>b. cache fs (cache_file_of e cdir p stat) \<noteq> Some (Entry b))
                \<and> fresh_analysis e p lang_name clock stat w = (Inr (Some a), w')
                \<and> fs' = write_cache_file fs (cache_file_of e cdir p stat) a)"
    by auto
  show "\<not> st_size stat > max_size"
    by (rule small)
  show "\<exists>lang_name. ext (lower (suffix p)) = Some lang_name \<and> lang_name \<noteq> []"
    using lang by blast
  show "cache fs' (cache_file_of e cdir p stat) = Some (Entry a)"
    using d written by (auto simp: write_cache_file_def)
  show "(\<forall>b. cache fs (cache_file_of e cdir p stat) \<noteq> Some (Entry b))
         \<longrightarrow> FileAnalysis.processing_time a = snd clock - fst clock"
    using d by (auto dest!: fresh_analysis_result)
qed

text \<open>
  Claim C1, as the code has it. When the analysis of a file has returned a result and the
  cache file could be written, a later analysis of the file with the cache on, the time
  and the size of the file unchanged and the cache file as it was left, returns that very
  result and changes nothing, whatever the clock says; the duration in it is the one
  measured by the analysis that parsed the file.
\<close>

theorem rerun_returns_cached_result:
  assumes "analyze_single_file e p ext cdir True max_size clock1 (fs, w) = (Inr (Some a), fs1, w1)"
    and "file_at fs p = Some stat"
    and "cache_write fs (cache_file_of e cdir p stat) = Written"
    and "file_at fs2 p = Some stat2"
    and "st_mtime stat2 = st_mtime stat" and "st_size stat2 = st_size stat"
    and "cache fs2 (cache_file_of e cdir p stat) = cache fs1 (cache_file_of e cdir p stat)"
  shows "analyze_single_file e p ext cdir True max_size clock2 (fs2, w2) = (Inr (Some a), fs2, w2)
         \<and> ((\<forall>b. cache fs (cache_file_of e cdir p stat) \<noteq> Some (Entry b))
              \<longrightarrow> FileAnalysis.processing_time a = snd clock1 - fst clock1)"
proof -
  note c = result_is_cached [OF assms(1-3)]
  from c(3) obtain lang_name where
    lang: "ext (lower (suffix p)) = Some lang_name" "lang_name \<noteq> []"
    by blast
  have small: "\<not> st_size stat2 > max_size"
    using c(2) assms(6) by simp
  have cf: "cache_file_of e cdir p stat2 = cache_file_of e cdir p stat"
    using assms(5) assms(6) by (rule cache_file_of_cong)
  have hit: "cache fs2 (cache_file_of e cdir p stat2) = Some (Entry a)"
    using c(1) assms(7) cf by simp
  have "analyze_single_file e p ext cdir True max_size clock2 (fs2, w2) = (Inr (Some a), fs2, w2)"
    using analyze_single_file_hit [where ext = ext, OF assms(4) small lang _ hit] by simp
  with c(4) show ?thesis
    by blast
qed

theorem rerun_returns_cached_result_witness:
  "demo_run1 = (Inr (Some demo_a), fst (snd demo_run1), snd (snd demo_run1))
   \<and> cache_write demo_fs demo_cf = Written
   \<and> demo_analyze True (10, 10) (fst (snd demo_run1), demo_worker)
       = (Inr (Some demo_a), fst (snd demo_run1), demo_worker)
   \<and> FileAnalysis.processing_time demo_a = snd (0 :: rat, 5 :: rat) - fst (0 :: rat, 5 :: rat)"
proof -
  have r: "fst demo_run1 = Inr (Some demo_a)"
    by code_simp
  then have h1: "demo_run1 = (Inr (Some demo_a), fst (snd demo_run1), snd (snd demo_run1))"
    by (simp add: prod_eq_iff)
  have h1': "analyze_single_file demo_env ''repo/a.py'' (extension_to_lang_name demo_parser)
       (cache_dir demo_parser) True (max_file_size demo_parser) (0, 5) (demo_fs, demo_worker)
     = (Inr (Some demo_a), fst (snd demo_run1), snd (snd demo_run1))"
    using h1 by (simp only: demo_run1_def demo_analyze_def)
  have h2: "file_at demo_fs ''repo/a.py'' = Some (demo_file ''def f(): pass'')"
    by (simp add: demo_fs_def)
  have h3: "cache_write demo_fs demo_cf = Written"
    by (simp add: demo_fs_def)
  have h3': "cache_write demo_fs (cache_file_of demo_env (cache_dir demo_parser) ''repo/a.py''
                (demo_file ''def f(): pass'')) = Written"
    by (simp add: demo_fs_def)
  have h4: "file_at (fst (snd demo_run1)) ''repo/a.py'' = Some (demo_file ''def f(): pass'')"
    by code_simp
  have h7: "cache demo_fs (cache_file_of demo_env (cache_dir demo_parser) ''repo/a.py''
                (demo_file ''def f(): pass'')) = None"
    by (simp add: demo_fs_def)
  note t = rerun_returns_cached_result [OF h1' h2 h3' h4 refl refl refl, of "(10, 10)" demo_worker]
  have a: "demo_analyze True (10, 10) (fst (snd demo_run1), demo_worker)
       = (Inr (Some demo_a), fst (snd demo_run1), demo_worker)"
    using t [THEN conjunct1] by (simp only: demo_analyze_def)
  have b: "FileAnalysis.processing_time demo_a = snd (0 :: rat, 5 :: rat) - fst (0 :: rat, 5 :: rat)"
    using t [THEN conjunct2] h7 by simp
  show ?thesis
    using h1 h3 a b by (intro conjI)
qed

text \<open>
  Claim C1 as stated fails: the second run below reads the clock at 10 and again at 10,
  returns the cached result of the first run, and so reports the five seconds that the
  first run measured.
\<close>

theorem cache_hit_duration_counterexample:
  "fst demo_run1 = Inr (Some demo_a) \<and> fst demo_run2 = Inr (Some demo_a)
   \<and> FileAnalysis.processing_time demo_a = 5"
  by code_simp


section \<open>Languages that fail to load\<close>

lemma get_language_for_worker_cases:
  assumes "get_language_for_worker e l w = (r, w')"
  shows "(WORKER_LANGUAGES w l = Some r \<and> w' = w)
         \<or> (WORKER_LANGUAGES w l = None
             \<and> (\<exists>d. r = Some d
                   \<and> w' = w\<lparr>WORKER_LANGUAGES := (WORKER_LANGUAGES w)(l \<mapsto> Some d),
                            events := events w @ [LoadAttempt l]\<rparr>))
         \<or> (WORKER_LANGUAGES w l = None \<and> r = None
             \<and> w' = w\<lparr>WORKER_LANGUAGES := (WORKER_LANGUAGES w)(l \<mapsto> None),
                      events := events w @ [LoadAttempt l, Log (WarningLoadFailed l)]\<rparr>)"
  using assms
  by (auto simp: get_language_for_worker_def split: option.splits sum.splits)

lemma get_language_for_worker_failed:
  "WORKER_LANGUAGES w l = Some None \<Longrightarrow> get_language_for_worker e l w = (None, w)"
  by (simp add: get_language_for_worker_def)

text \<open>A key of the dictionary keeps its value, and its language is not tried again.\<close>

lemma worker_step_keep:
  assumes "worker_step e w w'" and "WORKER_LANGUAGES w k = Some v"
  shows "WORKER_LANGUAGES w' k = Some v
         \<and> count_list (events w') (LoadAttempt k) = count_list (events w) (LoadAttempt k)
         \<and> count_list (events w') (Log (WarningLoadFailed k))
             = count_list (events w) (Log (WarningLoadFailed k))"
  using assms
proof (cases rule: worker_step.cases)
  case same
  with assms(2) show ?thesis by simp
next
  case (unread p)
  with assms(2) show ?thesis by simp
next
  case (load lang_name)
  obtain r where g: "get_language_for_worker e lang_name w = (r, w')"
    using load by (cases "get_language_for_worker e lang_name w") simp
  from get_language_for_worker_cases [OF g] assms(2) show ?thesis
    by auto
qed

lemma recorded_after_attempt:
  assumes "load_recorded w" and "WORKER_LANGUAGES w l0 = None"
    and "ev = [LoadAttempt l0] \<or> ev = [LoadAttempt l0, Log (WarningLoadFailed l0)]"
  shows "load_recorded (w\<lparr>WORKER_LANGUAGES := (WORKER_LANGUAGES w)(l0 \<mapsto> v),
                          events := events w @ ev\<rparr>)"
  unfolding load_recorded_def
proof (intro allI)
  fix l
  let ?w' = "w\<lparr>WORKER_LANGUAGES := (WORKER_LANGUAGES w)(l0 \<mapsto> v), events := events w @ ev\<rparr>"
  have z: "count_list (events w) (LoadAttempt l0) = 0
           \<and> count_list (events w) (Log (WarningLoadFailed l0)) = 0"
    using assms(1) assms(2) unfolding load_recorded_def by (metis le_zero_eq)
  show "(WORKER_LANGUAGES ?w' l = None \<longrightarrow> count_list (events ?w') (LoadAttempt l) = 0)
        \<and> count_list (events ?w') (LoadAttempt l) \<le> 1
        \<and> count_list (events ?w') (Log (WarningLoadFailed l))
            \<le> count_list (events ?w') (LoadAttempt l)"
    using assms(1) [unfolded load_recorded_def, rule_format, of l] z assms(3)
    by (cases "l = l0") auto
qed

lemma worker_step_recorded:
  assumes "worker_step e w w'" and "load_recorded w"
  shows "load_recorded w'"
  using assms
proof (cases rule: worker_step.cases)
  case same
  with assms(2) show ?thesis by simp
next
  case (unread p)
  with assms(2) show ?thesis by (simp add: load_recorded_def)
next
  case (load lang_name)
  obtain r where g: "get_language_for_worker e lang_name w = (r, w')"
    using load by (cases "get_language_for_worker e lang_name w") simp
  from get_language_for_worker_cases [OF g] show ?thesis
    using assms(2) by (auto intro: recorded_after_attempt)
qed

text \<open>Every analysis is one step of its process.\<close>

lemma fresh_analysis_step: "worker_step e w (snd (fresh_analysis e p lang_name clock stat w))"
proof (cases "readable stat")
  case False
  then have "snd (fresh_analysis e p lang_name clock stat w)
             = w\<lparr>events := events w @ [Log (WarningCouldNotRead p)]\<rparr>"
    by (simp add: fresh_analysis_def)
  then show ?thesis
    by (simp add: worker_step.unread)
next
  case True
  then have "snd (fresh_analysis e p lang_name clock stat w)
             = snd (get_language_for_worker e lang_name w)"
    by (simp add: fresh_analysis_def split: prod.splits option.splits sum.splits)
  then show ?thesis
    by (simp add: worker_step.load)
qed

lemma analyze_single_file_missing:
  "file_at fs p = None
     \<Longrightarrow> analyze_single_file e p ext cdir use_c max_size clock (fs, w)
         = (Inl FileNotFoundError, fs, w)"
  by (simp add: analyze_single_file_def)

lemma analyze_single_file_step:
  "worker_step e w (snd (snd (analyze_single_file e p ext cdir use_c max_size clock (fs, w))))"
proof (cases "file_at fs p")
  case None
  then show ?thesis
    by (simp add: analyze_single_file_missing worker_step.same)
next
  case (Some stat)
  show ?thesis
  proof (cases "st_size stat > max_size \<or> ext (lower (suffix p)) = None
                \<or> ext (lower (suffix p)) = Some []")
    case True
    from analyze_single_file_skip [where ext = ext, OF Some True] show ?thesis
      by (simp add: worker_step.same)
  next
    case False
    then have small: "\<not> st_size stat > max_size"
      by blast
    from False obtain lang_name where
      lang: "ext (lower (suffix p)) = Some lang_name" "lang_name \<noteq> []"
      by (cases "ext (lower (suffix p))") auto
    show ?thesis
    proof (cases "use_c \<and> (\<exists>b. cache fs (cache_file_of e cdir p stat) = Some (Entry b))")
      case True
      then obtain b where "use_c" "cache fs (cache_file_of e cdir p stat) = Some (Entry b)"
        by blast
      from analyze_single_file_hit [where ext = ext, OF Some small lang this] show ?thesis
        by (simp add: worker_step.same)
    next
      case False
      have "snd (snd (analyze_single_file e p ext cdir use_c max_size clock (fs, w)))
            = snd (fresh_analysis e p lang_name clock stat w)"
        by (simp add: analyze_single_file_miss [where ext = ext, OF Some small lang False]
                 split: prod.splits sum.splits option.splits)
      then show ?thesis
        by (simp add: fresh_analysis_step)
    qed
  qed
qed

lemma run_tasks_steps:
  "run_tasks e self sched pl = (outs, pl') \<Longrightarrow> (worker_step e)\<^sup>*\<^sup>* (workers pl i) (workers pl' i)"
proof (induction sched arbitrary: pl outs pl')
  case Nil
  then show ?case by simp
next
  case (Cons t ts)
  let ?r = "analyze_single_file e (task_path t) (extension_to_lang_name self) (cache_dir self)
              (use_cache self) (max_file_size self) (task_clock t)
              (disk pl, workers pl (task_worker t))"
  let ?pl1 = "\<lparr>disk = fst (snd ?r), workers = (workers pl)(task_worker t := snd (snd ?r))\<rparr>"
  obtain rs where rest: "run_tasks e self ts ?pl1 = (rs, pl')"
    using Cons.prems by (auto split: prod.splits)
  have "worker_step e (workers pl (task_worker t)) (snd (snd ?r))"
    by (rule analyze_single_file_step)
  then have first: "(worker_step e)\<^sup>*\<^sup>* (workers pl i) (workers ?pl1 i)"
    by (cases "i = task_worker t") auto
  from Cons.IH [OF rest] have "(worker_step e)\<^sup>*\<^sup>* (workers ?pl1 i) (workers pl' i)" .
  with first show ?case
    by (rule rtranclp_trans)
qed

lemma steps_recorded:
  "(worker_step e)\<^sup>*\<^sup>* w w' \<Longrightarrow> load_recorded w \<Longrightarrow> load_recorded w'"
  by (induction rule: rtranclp_induct) (auto intro: worker_step_recorded)

lemma steps_keep:
  "(worker_step e)\<^sup>*\<^sup>* w w' \<Longrightarrow> WORKER_LANGUAGES w k = Some v
     \<Longrightarrow> WORKER_LANGUAGES w' k = Some v
         \<and> count_list (events w') (LoadAttempt k) = count_list (events w) (LoadAttempt k)
         \<and> count_list (events w') (Log (WarningLoadFailed k))
             = count_list (events w) (Log (WarningLoadFailed k))"
proof (induction rule: rtranclp_induct)
  case base
  then show ?case by simp
next
  case (step y z)
  from step.IH [OF step.prems] worker_step_keep [OF step.hyps(2)] show ?case
    by simp
qed

text \<open>A file of a language that has failed to load, and that the cache does not serve.\<close>

lemma failed_language_skips:
  assumes "WORKER_LANGUAGES w l = Some None"
    and "file_at fs p = Some stat"
    and "ext (lower (suffix p)) = Some l"
    and "\<not> (use_c \<and> (\<exists>b. cache fs (cache_file_of e cdir p stat) = Some (Entry b)))"
  shows "fst (analyze_single_file e p ext cdir use_c max_size clock (fs, w)) = Inr None"
proof (cases "st_size stat > max_size \<or> l = []")
  case True
  then have "st_size stat > max_size \<or> ext (lower (suffix p)) = None
             \<or> ext (lower (suffix p)) = Some []"
    using assms(3) by auto
  from analyze_single_file_skip [where ext = ext, OF assms(2) this] show ?thesis
    by simp
next
  case False
  then have small: "\<not> st_size stat > max_size" and l: "l \<noteq> []"
    by simp_all
  obtain r w1 where f: "fresh_analysis e p l clock stat w = (r, w1)"
    by (cases "fresh_analysis e p l clock stat w")
  have "fst (fresh_analysis e p l clock stat w) = Inr None"
    by (simp add: fresh_analysis_def get_language_for_worker_failed [OF assms(1)])
  with f have "r = Inr None"
    by simp
  with f show ?thesis
    by (simp add: analyze_single_file_miss [where ext = ext, OF assms(2) small assms(3) l assms(4)])
qed

lemma load_recorded_bounds:
  "load_recorded w \<Longrightarrow> count_list (events w) (LoadAttempt l) \<le> 1
                         \<and> count_list (events w) (Log (WarningLoadFailed l)) \<le> 1"
  unfolding load_recorded_def by (meson le_trans)

lemma get_language_for_worker_records:
  assumes "WORKER_LANGUAGES w l = None" and "load_language e l = Inl x"
  shows "fst (get_language_for_worker e l w) = None
         \<and> WORKER_LANGUAGES (snd (get_language_for_worker e l w)) l = Some None"
  using assms by (simp add: get_language_for_worker_def)

text \<open>
  Claim C8, as the code has it. A failed load is recorded under the language in the
  dictionary of the process. Through any run of the pool, from processes whose trace
  agrees with their dictionary (as a fresh process does), every process tries each
  language at most once and warns about it at most once; a recorded failure stays, with
  no further try and no further warning; a file of such a language that the cache
  does not serve yields no result; and a file of such a language that is small enough and
  has an entry in the cache that can be loaded is returned from the cache, the cache
  being on, with nothing changed.
\<close>

theorem load_failure_is_permanent:
  assumes "\<forall>i. load_recorded (workers pl i)"
    and "run_tasks e self sched pl = (outs, pl')"
  shows "(\<forall>w l x. WORKER_LANGUAGES w l = None \<and> load_language e l = Inl x \<longrightarrow>
            fst (get_language_for_worker e l w) = None
            \<and> WORKER_LANGUAGES (snd (get_language_for_worker e l w)) l = Some None)
         \<and> (\<forall>i l. count_list (events (workers pl' i)) (LoadAttempt l) \<le> 1
                  \<and> count_list (events (workers pl' i)) (Log (WarningLoadFailed l)) \<le> 1)
         \<and> (\<forall>i l. WORKER_LANGUAGES (workers pl i) l = Some None \<longrightarrow>
                WORKER_LANGUAGES (workers pl' i) l = Some None
                \<and> count_list (events (workers pl' i)) (LoadAttempt l)
                    = count_list (events (workers pl i)) (LoadAttempt l)
                \<and> count_list (events (workers pl' i)) (Log (WarningLoadFailed l))
                    = count_list (events (workers pl i)) (Log (WarningLoadFailed l)))
         \<and> (\<forall>i l p fs stat clock.
                WORKER_LANGUAGES (workers pl' i) l = Some None
                \<and> file_at fs p = Some stat
                \<and> extension_to_lang_name self (lower (suffix p)) = Some l
                \<and> \<not> (use_cache self
                       \<and> (\<exists>b. cache fs (cache_file_of e (cache_dir self) p stat)
                                  = Some (Entry b)))
                \<longrightarrow> fst (analyze_single_file e p (extension_to_lang_name self) (cache_dir self)
                           (use_cache self) (max_file_size self) clock (fs, workers pl' i))
                      = Inr None)
         \<and> (\<forall>i l p fs stat clock b.
                WORKER_LANGUAGES (workers pl' i) l = Some None
                \<and> file_at fs p = Some stat \<and> \<not> st_size stat > max_file_size self
                \<and> extension_to_lang_name self (lower (suffix p)) = Some l \<and> l \<noteq> []
                \<and> use_cache self
                \<and> cache fs (cache_file_of e (cache_dir self) p stat) = Some (Entry b)
                \<longrightarrow> analyze_single_file e p (extension_to_lang_name self) (cache_dir self)
                      (use_cache self) (max_file_size self) clock (fs, workers pl' i)
                    = (Inr (Some b), fs, workers pl' i))"
proof (intro conjI allI impI)
  fix w :: worker and l x
  assume "WORKER_LANGUAGES w l = None \<and> load_language e l = Inl x"
  then show "fst (get_language_for_worker e l w) = None"
    and "WORKER_LANGUAGES (snd (get_language_for_worker e l w)) l = Some None"
    using get_language_for_worker_records by blast+
next
  fix i l
  have "load_recorded (workers pl' i)"
    using steps_recorded [OF run_tasks_steps [OF assms(2)]] assms(1) by blast
  then show "count_list (events (workers pl' i)) (LoadAttempt l) \<le> 1"
    and "count_list (events (workers pl' i)) (Log (WarningLoadFailed l)) \<le> 1"
    using load_recorded_bounds by blast+
next
  fix i l
  assume "WORKER_LANGUAGES (workers pl i) l = Some None"
  from steps_keep [OF run_tasks_steps [OF assms(2)] this]
  show "WORKER_LANGUAGES (workers pl' i) l = Some None"
    and "count_list (events (workers pl' i)) (LoadAttempt l)
           = count_list (events (workers pl i)) (LoadAttempt l)"
    and "count_list (events (workers pl' i)) (Log (WarningLoadFailed l))
           = count_list (events (workers pl i)) (Log (WarningLoadFailed l))"
    by blast+
next
  fix i l p and fs :: filesystem and stat clock
  assume a: "WORKER_LANGUAGES (workers pl' i) l = Some None
             \<and> file_at fs p = Some stat
             \<and> extension_to_lang_name self (lower (suffix p)) = Some l
             \<and> \<not> (use_cache self
                    \<and> (\<exists>b. cache fs (cache_file_of e (cache_dir self) p stat) = Some (Entry b)))"
  show "fst (analyze_single_file e p (extension_to_lang_name self) (cache_dir self)
               (use_cache self) (max_file_size self) clock (fs, workers pl' i)) = Inr None"
    by (rule failed_language_skips [where ext = "extension_to_lang_name self"])
       (use a in blast)+
next
  fix i l p and fs :: filesystem and stat clock b
  assume a: "WORKER_LANGUAGES (workers pl' i) l = Some None
             \<and> file_at fs p = Some stat \<and> \<not> st_size stat > max_file_size self
             \<and> extension_to_lang_name self (lower (suffix p)) = Some l \<and> l \<noteq> []
             \<and> use_cache self
             \<and> cache fs (cache_file_of e (cache_dir self) p stat) = Some (Entry b)"
  show "analyze_single_file e p (extension_to_lang_name self) (cache_dir self)
          (use_cache self) (max_file_size self) clock (fs, workers pl' i)
        = (Inr (Some b), fs, workers pl' i)"
    by (rule analyze_single_file_hit [where ext = "extension_to_lang_name self" and lang_name = l])
       (use a in blast)+
qed

theorem load_failure_is_permanent_witness:
  "(\<forall>i. load_recorded (workers \<lparr>disk = demo_go_fs, workers = (\<lambda>i. demo_worker)\<rparr> i))
   \<and> count_list (events (workers (snd demo_go_run) 0)) (LoadAttempt ''go'') \<le> 1
   \<and> count_list (events (workers (snd demo_go_run) 0)) (Log (WarningLoadFailed ''go'')) \<le> 1
   \<and> events (workers (snd demo_go_run) 0) = [LoadAttempt ''go'', Log (WarningLoadFailed ''go'')]
   \<and> WORKER_LANGUAGES (workers (snd demo_go_run) 0) ''go'' = Some None
   \<and> analyze_single_file demo_env ''repo/m.go'' (extension_to_lang_name demo_parser)
       (cache_dir demo_parser) (use_cache demo_parser) (max_file_size demo_parser) (2, 3)
       (demo_go_fs, workers (snd demo_go_run) 0)
     = (Inr (Some demo_go_a), demo_go_fs, workers (snd demo_go_run) 0)"
proof -
  have h1: "\<forall>i. load_recorded (workers \<lparr>disk = demo_go_fs, workers = (\<lambda>i. demo_worker)\<rparr> i)"
    by (simp add: load_recorded_def demo_worker_def)
  have h2: "run_tasks demo_env demo_parser demo_go_sched
              \<lparr>disk = demo_go_fs, workers = (\<lambda>i. demo_worker)\<rparr>
            = (fst demo_go_run, snd demo_go_run)"
    by (simp add: demo_go_run_def)
  note t = load_failure_is_permanent [OF h1 h2, THEN conjunct2, THEN conjunct1,
             rule_format, of 0 "''go''"]
  have h3: "events (workers (snd demo_go_run) 0)
              = [LoadAttempt ''go'', Log (WarningLoadFailed ''go'')]"
    by code_simp
  have h4: "WORKER_LANGUAGES (workers (snd demo_go_run) 0) ''go'' = Some None"
    by code_simp
  have h5: "file_at demo_go_fs ''repo/m.go'' = Some (demo_file ''func m() {}'')"
    by (simp add: demo_go_fs_def)
  have h6: "\<not> st_size (demo_file ''func m() {}'') > max_file_size demo_parser"
    by code_simp
  have h7: "extension_to_lang_name demo_parser (lower (suffix ''repo/m.go'')) = Some ''go''"
    by code_simp
  have h8: "use_cache demo_parser"
    by (simp add: demo_parser_def init_def)
  have h9: "cache demo_go_fs (cache_file_of demo_env (cache_dir demo_parser) ''repo/m.go''
              (demo_file ''func m() {}'')) = Some (Entry demo_go_a)"
    by (simp add: demo_go_fs_def)
  have h10: "''go'' \<noteq> []"
    by simp
  have hs: "WORKER_LANGUAGES (workers (snd demo_go_run) 0) ''go'' = Some None
            \<and> file_at demo_go_fs ''repo/m.go'' = Some (demo_file ''func m() {}'')
            \<and> \<not> st_size (demo_file ''func m() {}'') > max_file_size demo_parser
            \<and> extension_to_lang_name demo_parser (lower (suffix ''repo/m.go'')) = Some ''go''
            \<and> ''go'' \<noteq> []
            \<and> use_cache demo_parser
            \<and> cache demo_go_fs (cache_file_of demo_env (cache_dir demo_parser) ''repo/m.go''
                 (demo_file ''func m() {}'')) = Some (Entry demo_go_a)"
    using h4 h5 h6 h7 h10 h8 h9 by (intro conjI)
  note s = load_failure_is_permanent [OF h1 h2, THEN conjunct2, THEN conjunct2, THEN conjunct2,
             THEN conjunct2, rule_format, OF hs, of "(2, 3)"]
  have c1: "count_list (events (workers (snd demo_go_run) 0)) (LoadAttempt ''go'') \<le> 1"
    using t by blast
  have c2: "count_list (events (workers (snd demo_go_run) 0)) (Log (WarningLoadFailed ''go'')) \<le> 1"
    using t by blast
  show ?thesis
    using h1 c1 c2 h3 h4 s by (intro conjI)
qed

text \<open>
  Claim C8 as stated fails in its last part: in the run below the first process fails to
  load Go on \<open>n.go\<close> and skips \<open>k.go\<close>, yet returns a result for \<open>m.go\<close>, a file of the
  same language whose result is in the cache.
\<close>

theorem failed_language_cache_hit_counterexample:
  "fst demo_go_run
     = [(''repo/n.go'', Inr None), (''repo/k.go'', Inr None),
        (''repo/m.go'', Inr (Some demo_go_a))]
   \<and> map task_worker demo_go_sched = [0, 0, 0]
   \<and> WORKER_LANGUAGES (workers (snd demo_go_run) 0) ''go'' = Some None"
  by code_simp


section \<open>The aggregation\<close>

lemma as_completed_loop_eq:
  "as_completed_loop outs (analyses, langs, lg)
   = (analyses @ successes outs,
      langs \<union> language ` set (successes outs),
      lg @ map ErrorWorkerFailed (failures outs))"
proof (induction outs arbitrary: analyses langs lg)
  case Nil
  then show ?case
    by (simp add: successes_def failures_def)
next
  case (Cons x outs)
  obtain p r where o: "x = (p, r)"
    by (cases x)
  show ?case
  proof (cases r)
    case (Inl x)
    with o Cons.IH show ?thesis
      by (simp add: successes_def failures_def)
  next
    case (Inr a)
    with o Cons.IH show ?thesis
      by (cases a) (simp_all add: successes_def failures_def)
  qed
qed

lemma aggregate_eq:
  "aggregate outs total_time lg
   = (\<lparr>total_files = length (successes outs),
       total_functions = sum_list (map (\<lambda>a. length (functions a)) (successes outs)),
       total_imports = sum_list (map (\<lambda>a. length (imports a)) (successes outs)),
       languages_found = language ` set (successes outs),
       processing_time = total_time,
       files = successes outs\<rparr>,
      lg @ map ErrorWorkerFailed (failures outs) @ [InfoCompleted])"
  by (simp add: aggregate_def as_completed_loop_eq)

lemma successes_append: "successes (xs @ ys) = successes xs @ successes ys"
  by (simp add: successes_def map_filter_def)

lemma failures_append: "failures (xs @ ys) = failures xs @ failures ys"
  by (simp add: failures_def map_filter_def)

lemma successes_mset:
  "mset outs' = mset outs \<Longrightarrow> mset (successes outs') = mset (successes outs)"
  by (simp add: successes_def map_filter_def)

lemma sum_list_mset:
  fixes g :: "'a \<Rightarrow> nat"
  assumes "mset xs = mset ys"
  shows "sum_list (map g xs) = sum_list (map g ys)"
proof -
  have "sum_list (map g xs) = sum_mset (image_mset g (mset xs))"
    by (simp flip: sum_mset_sum_list)
  also have "\<dots> = sum_mset (image_mset g (mset ys))"
    by (simp add: assms)
  also have "\<dots> = sum_list (map g ys)"
    by (simp flip: sum_mset_sum_list)
  finally show ?thesis .
qed

text \<open>One task of the pool, with the projections written out.\<close>

lemma run_tasks_Cons:
  "run_tasks e self (t # ts) pl
   = ((task_path t,
       fst (analyze_single_file e (task_path t) (extension_to_lang_name self) (cache_dir self)
              (use_cache self) (max_file_size self) (task_clock t)
              (disk pl, workers pl (task_worker t))))
      # fst (run_tasks e self ts
             \<lparr>disk = fst (snd (analyze_single_file e (task_path t) (extension_to_lang_name self)
                                (cache_dir self) (use_cache self) (max_file_size self)
                                (task_clock t) (disk pl, workers pl (task_worker t)))),
              workers = (workers pl)
                (task_worker t :=
                   snd (snd (analyze_single_file e (task_path t) (extension_to_lang_name self)
                               (cache_dir self) (use_cache self) (max_file_size self)
                               (task_clock t) (disk pl, workers pl (task_worker t)))))\<rparr>),
      snd (run_tasks e self ts
             \<lparr>disk = fst (snd (analyze_single_file e (task_path t) (extension_to_lang_name self)
                                (cache_dir self) (use_cache self) (max_file_size self)
                                (task_clock t) (disk pl, workers pl (task_worker t)))),
              workers = (workers pl)
                (task_worker t :=
                   snd (snd (analyze_single_file e (task_path t) (extension_to_lang_name self)
                               (cache_dir self) (use_cache self) (max_file_size self)
                               (task_clock t) (disk pl, workers pl (task_worker t)))))\<rparr>))"
  by (simp split: prod.splits)

text \<open>The pool gives every task an outcome, in the order of completion.\<close>

lemma run_tasks_paths:
  "map fst (fst (run_tasks e self sched pl)) = map task_path sched"
  by (induction sched arbitrary: pl) (simp_all add: run_tasks_Cons del: run_tasks.simps(2))





text \<open>The two ways the fresh path ends without a result.\<close>

lemma fresh_analysis_unreadable:
  "\<not> readable stat
     \<Longrightarrow> fresh_analysis e p lang_name clock stat w
         = (Inr None, w\<lparr>events := events w @ [Log (WarningCouldNotRead p)]\<rparr>)"
  by (simp add: fresh_analysis_def)

lemma fresh_analysis_no_language:
  "readable stat \<Longrightarrow> fst (get_language_for_worker e lang_name w) = None
     \<Longrightarrow> fresh_analysis e p lang_name clock stat w
         = (Inr None, snd (get_language_for_worker e lang_name w))"
  by (cases "get_language_for_worker e lang_name w") (simp add: fresh_analysis_def)

lemma successes_None: "successes (pre @ (p, Inr None) # post) = successes (pre @ post)"
  by (simp add: successes_def map_filter_def)

lemma failures_None: "failures (pre @ (p, Inr None) # post) = failures (pre @ post)"
  by (simp add: failures_def map_filter_def)

lemma successes_Inl: "successes (pre @ (p, Inl x) # post) = successes (pre @ post)"
  by (simp add: successes_def map_filter_def)

lemma failures_Inl: "failures (pre @ (p, Inl x) # post) = failures pre @ p # failures post"
  by (simp add: failures_def map_filter_def)

lemma successes_all:
  "\<forall>q\<in>set outs. \<exists>a. snd q = Inr (Some a) \<Longrightarrow> length (successes outs) = length outs"
  by (induction outs) (auto simp: successes_def)

lemma failures_none:
  "\<forall>q\<in>set outs. \<exists>a. snd q = Inr (Some a) \<Longrightarrow> failures outs = []"
  by (induction outs) (auto simp: failures_def)

lemma aggregate_None:
  "aggregate (pre @ (p, Inr None) # post) total_time lg = aggregate (pre @ post) total_time lg"
  by (simp only: aggregate_eq successes_None failures_None)

lemma loop_None:
  "as_completed_loop (pre @ (p, Inr None) # post) acc = as_completed_loop (pre @ post) acc"
  by (cases acc) (simp only: as_completed_loop_eq successes_None failures_None)

text \<open>
  Claim C4. In every \<open>RepositoryAnalysis\<close> that \<open>analyze_repository\<close> returns, the
  number of files is the length of the list of results and the two totals are the sums of
  the lengths of the lists of the results; and the aggregation of the same outcomes in
  another order of completion gives the same totals, the same languages and the same
  results up to their order.
\<close>

theorem totals_are_sums:
  "(fst (analyze_repository e self repo_path exclude_patterns sched clock st) = Inr res \<longrightarrow>
      total_files res = length (files res)
      \<and> total_functions res = sum_list (map (\<lambda>a. length (functions a)) (files res))
      \<and> total_imports res = sum_list (map (\<lambda>a. length (imports a)) (files res)))
   \<and> (mset outs' = mset outs \<longrightarrow>
      total_files (fst (aggregate outs' t lg)) = total_files (fst (aggregate outs t lg))
      \<and> total_functions (fst (aggregate outs' t lg))
          = total_functions (fst (aggregate outs t lg))
      \<and> total_imports (fst (aggregate outs' t lg)) = total_imports (fst (aggregate outs t lg))
      \<and> languages_found (fst (aggregate outs' t lg))
          = languages_found (fst (aggregate outs t lg))
      \<and> mset (files (fst (aggregate outs' t lg))) = mset (files (fst (aggregate outs t lg))))"
proof (intro conjI impI)
  assume r: "fst (analyze_repository e self repo_path exclude_patterns sched clock st) = Inr res"
  obtain pl lg0 where st: "st = (pl, lg0)"
    by (cases st)
  have "res = \<lparr>total_files = 0, total_functions = 0, total_imports = 0,
               languages_found = {}, processing_time = 0, files = []\<rparr>
        \<or> res = fst (aggregate (fst (run_tasks e self sched pl)) (snd clock - fst clock)
                    (lg0 @ [InfoStarting repo_path,
                            InfoFound (length (collect_files self (disk pl) repo_path
                                                 exclude_patterns))]))"
    using r unfolding st analyze_repository_def
    by (auto simp: Let_def split: if_splits prod.splits)
  then have "total_files res = length (files res)
      \<and> total_functions res = sum_list (map (\<lambda>a. length (functions a)) (files res))
      \<and> total_imports res = sum_list (map (\<lambda>a. length (imports a)) (files res))"
    by (auto simp: aggregate_eq)
  then show "total_files res = length (files res)"
    and "total_functions res = sum_list (map (\<lambda>a. length (functions a)) (files res))"
    and "total_imports res = sum_list (map (\<lambda>a. length (imports a)) (files res))"
    by blast+
next
  assume "mset outs' = mset outs"
  then have m: "mset (successes outs') = mset (successes outs)"
    by (rule successes_mset)
  show "total_files (fst (aggregate outs' t lg)) = total_files (fst (aggregate outs t lg))"
    using mset_eq_length [OF m] by (simp add: aggregate_eq)
  show "total_functions (fst (aggregate outs' t lg))
          = total_functions (fst (aggregate outs t lg))"
    using sum_list_mset [OF m] by (simp add: aggregate_eq)
  show "total_imports (fst (aggregate outs' t lg)) = total_imports (fst (aggregate outs t lg))"
    using sum_list_mset [OF m] by (simp add: aggregate_eq)
  show "languages_found (fst (aggregate outs' t lg))
          = languages_found (fst (aggregate outs t lg))"
    using mset_eq_setD [OF m] by (simp add: aggregate_eq)
  show "mset (files (fst (aggregate outs' t lg))) = mset (files (fst (aggregate outs t lg)))"
    using m by (simp add: aggregate_eq)
qed

theorem totals_are_sums_witness:
  "fst demo5_run
     = Inr \<lparr>total_files = 4, total_functions = 4, total_imports = 0,
            languages_found = {''python''}, processing_time = 7,
            files = [demo_a\<lparr>file_path := ''repo/b.py'', functions := [''g''],
                            FileAnalysis.processing_time := 1\<rparr>,
                     demo_a\<lparr>FileAnalysis.processing_time := 2\<rparr>,
                     demo_a\<lparr>file_path := ''repo/e.py'', functions := [''k''],
                            FileAnalysis.processing_time := 1\<rparr>,
                     demo_a\<lparr>file_path := ''repo/d.py'', functions := [''h''],
                            FileAnalysis.processing_time := 3\<rparr>]\<rparr>
   \<and> (4 :: nat) = length [demo_a, demo_a, demo_a, demo_a]
   \<and> mset [(''repo/c.py'', Inl EngineError), (''repo/a.py'', Inr (Some demo_a))]
       = mset [(''repo/a.py'', Inr (Some demo_a)), (''repo/c.py'', Inl EngineError)]
   \<and> total_functions (fst (aggregate
         [(''repo/c.py'', Inl EngineError), (''repo/a.py'', Inr (Some demo_a))] 7 []))
       = total_functions (fst (aggregate
         [(''repo/a.py'', Inr (Some demo_a)), (''repo/c.py'', Inl EngineError)] 7 []))"
proof -
  let ?res = "\<lparr>total_files = 4, total_functions = 4, total_imports = 0,
            languages_found = {''python''}, processing_time = 7,
            files = [demo_a\<lparr>file_path := ''repo/b.py'', functions := [''g''],
                            FileAnalysis.processing_time := 1\<rparr>,
                     demo_a\<lparr>FileAnalysis.processing_time := 2\<rparr>,
                     demo_a\<lparr>file_path := ''repo/e.py'', functions := [''k''],
                            FileAnalysis.processing_time := 1\<rparr>,
                     demo_a\<lparr>file_path := ''repo/d.py'', functions := [''h''],
                            FileAnalysis.processing_time := 3\<rparr>]\<rparr>"
  have h1: "fst demo5_run = Inr ?res"
    by code_simp
  have h1': "fst (analyze_repository demo_env demo_parser ''repo'' None demo5_sched (0, 7)
                (\<lparr>disk = demo5_fs, workers = (\<lambda>i. demo_worker)\<rparr>, [])) = Inr ?res"
    using h1 by (simp only: demo5_run_def)
  have h2: "mset [(''repo/c.py'', Inl EngineError), (''repo/a.py'', Inr (Some demo_a))]
       = mset [(''repo/a.py'', Inr (Some demo_a)), (''repo/c.py'', Inl EngineError)]"
    by simp
  note t1 = totals_are_sums [THEN conjunct1, rule_format, OF h1', THEN conjunct1]
  note t2 = totals_are_sums [THEN conjunct2, rule_format, OF h2, THEN conjunct2, THEN conjunct1,
              of 7 "[]"]
  have h3: "(4 :: nat) = length [demo_a, demo_a, demo_a, demo_a]"
    using t1 by simp
  show ?thesis
    using h1 h3 h2 t2 by (intro conjI)
qed

text \<open>An analysis that raises leaves the file system as it found it.\<close>

lemma analyze_single_file_raise:
  assumes "fst (analyze_single_file e p ext cdir use_c max_size clock (fs, w)) = Inl x"
  shows "fst (snd (analyze_single_file e p ext cdir use_c max_size clock (fs, w))) = fs"
  using assms
  by (auto simp: analyze_single_file_def Let_def
           split: option.splits cache_file.splits prod.splits sum.splits if_splits)

text \<open>
  Claim C9. The pool gives every task of a run an outcome, whatever the other tasks do; a
  task that raises leaves the file system untouched; the path of a task that raised is
  logged as an error, and its outcome adds nothing to the list of results, to the counts
  or to the languages. With five outcomes of which one is an exception and four are
  results, the aggregate holds exactly the four results.
\<close>

theorem task_failure_is_isolated:
  assumes "run_tasks e self sched pl = (outs, pl')"
  shows "map fst outs = map task_path sched
         \<and> (\<forall>p clock fs w x.
               fst (analyze_single_file e p (extension_to_lang_name self) (cache_dir self)
                      (use_cache self) (max_file_size self) clock (fs, w)) = Inl x
               \<longrightarrow> fst (snd (analyze_single_file e p (extension_to_lang_name self)
                      (cache_dir self) (use_cache self) (max_file_size self) clock (fs, w))) = fs)
         \<and> aggregate outs t lg
             = (\<lparr>total_files = length (successes outs),
                 total_functions = sum_list (map (\<lambda>a. length (functions a)) (successes outs)),
                 total_imports = sum_list (map (\<lambda>a. length (imports a)) (successes outs)),
                 languages_found = language ` set (successes outs),
                 processing_time = t,
                 files = successes outs\<rparr>,
                lg @ map ErrorWorkerFailed (failures outs) @ [InfoCompleted])
         \<and> (\<forall>pre p x post. outs = pre @ (p, Inl x) # post \<longrightarrow>
               successes outs = successes (pre @ post)
               \<and> failures outs = failures pre @ p # failures post)
         \<and> (\<forall>pre p x post.
               outs = pre @ (p, Inl x) # post \<and> length outs = 5
               \<and> (\<forall>q\<in>set (pre @ post). \<exists>a. snd q = Inr (Some a))
               \<longrightarrow> total_files (fst (aggregate outs t lg)) = 4
                   \<and> files (fst (aggregate outs t lg)) = successes (pre @ post)
                   \<and> length (files (fst (aggregate outs t lg))) = 4
                   \<and> snd (aggregate outs t lg) = lg @ [ErrorWorkerFailed p, InfoCompleted])"
proof (intro conjI allI impI)
  show "map fst outs = map task_path sched"
    using run_tasks_paths [of e self sched pl] assms by simp
next
  fix p clock and fs :: filesystem and w x
  assume "fst (analyze_single_file e p (extension_to_lang_name self) (cache_dir self)
                 (use_cache self) (max_file_size self) clock (fs, w)) = Inl x"
  then show "fst (snd (analyze_single_file e p (extension_to_lang_name self)
                 (cache_dir self) (use_cache self) (max_file_size self) clock (fs, w))) = fs"
    by (rule analyze_single_file_raise)
next
  show "aggregate outs t lg
             = (\<lparr>total_files = length (successes outs),
                 total_functions = sum_list (map (\<lambda>a. length (functions a)) (successes outs)),
                 total_imports = sum_list (map (\<lambda>a. length (imports a)) (successes outs)),
                 languages_found = language ` set (successes outs),
                 processing_time = t,
                 files = successes outs\<rparr>,
                lg @ map ErrorWorkerFailed (failures outs) @ [InfoCompleted])"
    by (rule aggregate_eq)
next
  fix pre p x post
  assume "outs = pre @ (p, Inl x) # post"
  then show "successes outs = successes (pre @ post)"
    and "failures outs = failures pre @ p # failures post"
    by (simp_all add: successes_Inl failures_Inl)
next
  fix pre p x post
  assume a: "outs = pre @ (p, Inl x) # post \<and> length outs = 5
             \<and> (\<forall>q\<in>set (pre @ post). \<exists>a. snd q = Inr (Some a))"
  then have s: "successes outs = successes (pre @ post)"
    by (simp add: successes_Inl)
  from a have n: "length (pre @ post) = 4"
    by auto
  from a have four: "length (successes (pre @ post)) = 4"
    using successes_all [of "pre @ post"] n by simp
  from a have "failures pre = []" and "failures post = []"
    using failures_none [of pre] failures_none [of post] by auto
  with a have f: "failures outs = [p]"
    using failures_Inl [of pre p x post] by simp
  show "total_files (fst (aggregate outs t lg)) = 4"
    by (simp add: aggregate_eq s four)
  show "files (fst (aggregate outs t lg)) = successes (pre @ post)"
    by (simp add: aggregate_eq s)
  show "length (files (fst (aggregate outs t lg))) = 4"
    by (simp add: aggregate_eq s four)
  show "snd (aggregate outs t lg) = lg @ [ErrorWorkerFailed p, InfoCompleted]"
    by (simp add: aggregate_eq f)
qed

theorem task_failure_is_isolated_witness:
  "map fst (fst (run_tasks demo_env demo_parser demo5_sched
                   \<lparr>disk = demo5_fs, workers = (\<lambda>i. demo_worker)\<rparr>))
     = [''repo/b.py'', ''repo/a.py'', ''repo/c.py'', ''repo/e.py'', ''repo/d.py'']
   \<and> snd (fst (run_tasks demo_env demo_parser demo5_sched
                 \<lparr>disk = demo5_fs, workers = (\<lambda>i. demo_worker)\<rparr>) ! 2) = Inl EngineError
   \<and> total_files (fst (aggregate
        (fst (run_tasks demo_env demo_parser demo5_sched
                \<lparr>disk = demo5_fs, workers = (\<lambda>i. demo_worker)\<rparr>)) 7 [])) = 4
   \<and> snd (aggregate
        (fst (run_tasks demo_env demo_parser demo5_sched
                \<lparr>disk = demo5_fs, workers = (\<lambda>i. demo_worker)\<rparr>)) 7 [])
       = [ErrorWorkerFailed ''repo/c.py'', InfoCompleted]"
proof -
  let ?run = "run_tasks demo_env demo_parser demo5_sched
                \<lparr>disk = demo5_fs, workers = (\<lambda>i. demo_worker)\<rparr>"
  let ?pre = "[(''repo/b.py'', Inr (Some (demo_a\<lparr>file_path := ''repo/b.py'', functions := [''g''],
                            FileAnalysis.processing_time := 1\<rparr>))),
               (''repo/a.py'', Inr (Some (demo_a\<lparr>FileAnalysis.processing_time := 2\<rparr>)))]"
  let ?post = "[(''repo/e.py'', Inr (Some (demo_a\<lparr>file_path := ''repo/e.py'', functions := [''k''],
                            FileAnalysis.processing_time := 1\<rparr>))),
                (''repo/d.py'', Inr (Some (demo_a\<lparr>file_path := ''repo/d.py'', functions := [''h''],
                            FileAnalysis.processing_time := 3\<rparr>)))]"
  have h0: "?run = (fst ?run, snd ?run)"
    by simp
  have h1: "fst ?run = ?pre @ (''repo/c.py'', Inl EngineError) # ?post"
    by code_simp
  have h2: "length (fst ?run) = 5"
    by (simp add: h1)
  have h3: "\<forall>q\<in>set (?pre @ ?post). \<exists>a. snd q = Inr (Some a)"
    by simp
  note t = task_failure_is_isolated [OF h0, of 7 "[]"]
  note t1 = t [THEN conjunct1]
  note t5 = t [THEN conjunct2, THEN conjunct2, THEN conjunct2, THEN conjunct2, rule_format,
               of ?pre "''repo/c.py''" EngineError ?post, OF conjI [OF h1 conjI [OF h2 h3]]]
  have a: "map fst (fst ?run)
     = [''repo/b.py'', ''repo/a.py'', ''repo/c.py'', ''repo/e.py'', ''repo/d.py'']"
    using t1 by (simp add: demo5_sched_def)
  have b: "snd (fst ?run ! 2) = Inl EngineError"
    by (simp add: h1)
  have c: "total_files (fst (aggregate (fst ?run) 7 [])) = 4"
    using t5 by blast
  have d: "snd (aggregate (fst ?run) 7 []) = [ErrorWorkerFailed ''repo/c.py'', InfoCompleted]"
    using t5 by simp
  show ?thesis
    using a b c d by (intro conjI)
qed

text \<open>
  Claim C10. For a file that exists, each of the four conditions ends the analysis with
  the one outcome \<open>None\<close>: a size over the ceiling and an extension without a language
  leave no trace at all, a file that cannot be read leaves a warning, a language that does
  not load leaves what the load leaves. The loop over the outcomes and the aggregate are
  the same with or without an outcome \<open>None\<close>.
\<close>

theorem non_success_is_none:
  assumes "file_at fs p = Some stat"
  shows "(st_size stat > max_size \<longrightarrow>
            analyze_single_file e p ext cdir use_c max_size clock (fs, w) = (Inr None, fs, w))
         \<and> (ext (lower (suffix p)) = None \<or> ext (lower (suffix p)) = Some [] \<longrightarrow>
            analyze_single_file e p ext cdir use_c max_size clock (fs, w) = (Inr None, fs, w))
         \<and> (\<forall>lang_name.
               \<not> st_size stat > max_size
               \<and> ext (lower (suffix p)) = Some lang_name \<and> lang_name \<noteq> []
               \<and> \<not> (use_c \<and> (\<exists>b. cache fs (cache_file_of e cdir p stat) = Some (Entry b)))
               \<and> \<not> readable stat
               \<longrightarrow> analyze_single_file e p ext cdir use_c max_size clock (fs, w)
                     = (Inr None, fs, w\<lparr>events := events w @ [Log (WarningCouldNotRead p)]\<rparr>))
         \<and> (\<forall>lang_name.
               \<not> st_size stat > max_size
               \<and> ext (lower (suffix p)) = Some lang_name \<and> lang_name \<noteq> []
               \<and> \<not> (use_c \<and> (\<exists>b. cache fs (cache_file_of e cdir p stat) = Some (Entry b)))
               \<and> readable stat
               \<and> fst (get_language_for_worker e lang_name w) = None
               \<longrightarrow> analyze_single_file e p ext cdir use_c max_size clock (fs, w)
                     = (Inr None, fs, snd (get_language_for_worker e lang_name w)))
         \<and> (\<forall>pre post acc.
               as_completed_loop (pre @ (p, Inr None) # post) acc
                 = as_completed_loop (pre @ post) acc)
         \<and> (\<forall>pre post t lg.
               aggregate (pre @ (p, Inr None) # post) t lg = aggregate (pre @ post) t lg)"
proof (intro conjI allI impI)
  assume "st_size stat > max_size"
  then show "analyze_single_file e p ext cdir use_c max_size clock (fs, w) = (Inr None, fs, w)"
    using analyze_single_file_skip [where ext = ext, OF assms] by blast
next
  assume "ext (lower (suffix p)) = None \<or> ext (lower (suffix p)) = Some []"
  then show "analyze_single_file e p ext cdir use_c max_size clock (fs, w) = (Inr None, fs, w)"
    using analyze_single_file_skip [where ext = ext, OF assms] by blast
next
  fix lang_name
  assume a: "\<not> st_size stat > max_size
             \<and> ext (lower (suffix p)) = Some lang_name \<and> lang_name \<noteq> []
             \<and> \<not> (use_c \<and> (\<exists>b. cache fs (cache_file_of e cdir p stat) = Some (Entry b)))
             \<and> \<not> readable stat"
  then have m: "analyze_single_file e p ext cdir use_c max_size clock (fs, w)
         = (case fresh_analysis e p lang_name clock stat w of
              (Inr (Some analysis), w') \<Rightarrow>
                (Inr (Some analysis),
                 (if use_c then write_cache_file fs (cache_file_of e cdir p stat) analysis
                  else fs),
                 w')
            | (r, w') \<Rightarrow> (r, fs, w'))"
    using analyze_single_file_miss [where ext = ext, OF assms] by blast
  show "analyze_single_file e p ext cdir use_c max_size clock (fs, w)
          = (Inr None, fs, w\<lparr>events := events w @ [Log (WarningCouldNotRead p)]\<rparr>)"
    using a by (simp add: m fresh_analysis_unreadable)
next
  fix lang_name
  assume a: "\<not> st_size stat > max_size
             \<and> ext (lower (suffix p)) = Some lang_name \<and> lang_name \<noteq> []
             \<and> \<not> (use_c \<and> (\<exists>b. cache fs (cache_file_of e cdir p stat) = Some (Entry b)))
             \<and> readable stat
             \<and> fst (get_language_for_worker e lang_name w) = None"
  then have m: "analyze_single_file e p ext cdir use_c max_size clock (fs, w)
         = (case fresh_analysis e p lang_name clock stat w of
              (Inr (Some analysis), w') \<Rightarrow>
                (Inr (Some analysis),
                 (if use_c then write_cache_file fs (cache_file_of e cdir p stat) analysis
                  else fs),
                 w')
            | (r, w') \<Rightarrow> (r, fs, w'))"
    using analyze_single_file_miss [where ext = ext, OF assms] by blast
  show "analyze_single_file e p ext cdir use_c max_size clock (fs, w)
          = (Inr None, fs, snd (get_language_for_worker e lang_name w))"
    using a by (simp add: m fresh_analysis_no_language)
next
  fix pre post acc
  show "as_completed_loop (pre @ (p, Inr None) # post) acc = as_completed_loop (pre @ post) acc"
    by (rule loop_None)
next
  fix pre post t lg
  show "aggregate (pre @ (p, Inr None) # post) t lg = aggregate (pre @ post) t lg"
    by (rule aggregate_None)
qed

theorem non_success_is_none_witness:
  "file_at demo_fs ''repo/big.py'' = Some (demo_file (replicate 101 CHR ''#''))
   \<and> st_size (demo_file (replicate 101 CHR ''#'')) > 100
   \<and> analyze_single_file demo_env ''repo/big.py'' (extension_to_lang_name demo_parser)
        ''.repo_cache'' True 100 (0, 1) (demo_fs, demo_worker)
       = (Inr None, demo_fs, demo_worker)
   \<and> aggregate [(''repo/a.py'', Inr (Some demo_a)), (''repo/big.py'', Inr None)] 7 []
       = aggregate [(''repo/a.py'', Inr (Some demo_a))] 7 []"
proof -
  have h1: "file_at demo_fs ''repo/big.py'' = Some (demo_file (replicate 101 CHR ''#''))"
    by (simp add: demo_fs_def)
  have h2: "st_size (demo_file (replicate 101 CHR ''#'')) > 100"
    by (simp add: st_size_def demo_file_def)
  note t = non_success_is_none [OF h1, of 100 demo_env "extension_to_lang_name demo_parser"
             "''.repo_cache''" True "(0, 1)" demo_worker]
  note t1 = t [THEN conjunct1, rule_format, OF h2]
  note t6 = t [THEN conjunct2, THEN conjunct2, THEN conjunct2, THEN conjunct2, THEN conjunct2,
               rule_format, of "[(''repo/a.py'', Inr (Some demo_a))]" "[]" 7 "[]"]
  have h3: "aggregate [(''repo/a.py'', Inr (Some demo_a)), (''repo/big.py'', Inr None)] 7 []
       = aggregate [(''repo/a.py'', Inr (Some demo_a))] 7 []"
    using t6 by simp
  show ?thesis
    using h1 h2 t1 h3 by (intro conjI)
qed


section \<open>Files over the size ceiling\<close>












section \<open>The listing and the report\<close>

lemma group_step_keys:
  "map fst (group_step groups a)
   = (if language a \<in> fst ` set groups then map fst groups else map fst groups @ [language a])"
  by (auto simp: group_step_def)

lemma map_of_append_entry:
  "map_of (map (\<lambda>(k, v). if k = l then (k, v @ [a]) else (k, v)) xs) k
   = (if k = l then map_option (\<lambda>v. v @ [a]) (map_of xs k) else map_of xs k)"
  by (induction xs) auto

lemma group_step_map_of:
  "map_of (group_step groups a) k
   = (if k = language a
      then Some ((case map_of groups k of Some v \<Rightarrow> v | None \<Rightarrow> []) @ [a])
      else map_of groups k)"
proof (cases "language a \<in> fst ` set groups")
  case True
  then obtain v where "map_of groups (language a) = Some v"
    by (metis map_of_eq_None_iff not_Some_eq)
  with True show ?thesis
    by (simp add: group_step_def map_of_append_entry)
next
  case False
  then have "map_of groups (language a) = None"
    by (simp add: map_of_eq_None_iff)
  with False show ?thesis
    by (simp add: group_step_def map_of_append_entry map_add_def split: option.splits)
qed

lemma by_language_keys:
  "set (map fst (by_language xs groups)) = set (map fst groups) \<union> language ` set xs"
proof (induction xs arbitrary: groups)
  case Nil
  then show ?case by simp
next
  case (Cons a xs)
  have "set (map fst (group_step groups a)) = insert (language a) (set (map fst groups))"
    by (auto simp: group_step_keys)
  with Cons.IH [of "group_step groups a"] show ?case
    by auto
qed

lemma by_language_distinct:
  "distinct (map fst groups) \<Longrightarrow> distinct (map fst (by_language xs groups))"
proof (induction xs arbitrary: groups)
  case Nil
  then show ?case by simp
next
  case (Cons a xs)
  have "distinct (map fst (group_step groups a))"
    using Cons.prems by (auto simp: group_step_keys)
  from Cons.IH [OF this] show ?case
    by simp
qed

lemma by_language_map_of:
  "(case map_of (by_language xs groups) k of Some v \<Rightarrow> v | None \<Rightarrow> [])
   = (case map_of groups k of Some v \<Rightarrow> v | None \<Rightarrow> []) @ filter (\<lambda>a. language a = k) xs"
proof (induction xs arbitrary: groups)
  case Nil
  then show ?case by simp
next
  case (Cons a xs)
  show ?case
    by (simp add: Cons.IH [of "group_step groups a"] group_step_map_of)
qed

lemma sort_distinct:
  fixes xs :: "'a::linorder list"
  shows "distinct xs \<Longrightarrow> sort xs = sorted_list_of_set (set xs)"
  by (simp add: sorted_list_of_set_sort_remdups distinct_remdups_id)

text \<open>The listing in closed form: the languages of the results, and the results of each.\<close>

lemma display_listing_eq:
  "display_listing result
   = map (\<lambda>lang. (lang, sort_key file_path (filter (\<lambda>a. language a = lang) (files result))))
       (sorted_list_of_set (language ` set (files result)))"
proof -
  let ?groups = "by_language (files result) []"
  have d: "distinct (map fst ?groups)"
    by (rule by_language_distinct) simp
  have k: "set (map fst ?groups) = language ` set (files result)"
    using by_language_keys [of "files result" "[]"] by simp
  have "sort (map fst ?groups) = sorted_list_of_set (set (map fst ?groups))"
    using d by (rule sort_distinct)
  then have s: "sort (map fst ?groups) = sorted_list_of_set (language ` set (files result))"
    by (simp only: k)
  have v: "\<And>lang. (case map_of ?groups lang of Some fs \<Rightarrow> fs | None \<Rightarrow> [])
                   = filter (\<lambda>a. language a = lang) (files result)"
    using by_language_map_of [of "files result" "[]"] by simp
  show ?thesis
    unfolding display_listing_def Let_def by (simp only: s v)
qed

text \<open>Sorting by a key that tells the elements apart forgets the order they came in.\<close>

lemma sort_key_filter_perm:
  assumes "mset xs' = mset xs" and "distinct (map file_path xs)"
  shows "sort_key file_path (filter P xs') = sort_key file_path (filter P xs)"
proof (rule sort_key_eq_sort_key)
  show "mset (filter P xs') = mset (filter P xs)"
    using assms(1) by simp
  have "inj_on file_path (set xs)"
    using assms(2) by (simp add: distinct_map)
  moreover have "set xs' = set xs"
    using assms(1) by (rule mset_eq_setD)
  ultimately show "inj_on file_path (set (filter P xs'))"
    by (auto intro: inj_on_subset)
qed

text \<open>Every result stands under exactly one language.\<close>

lemma groups_cover:
  fixes xs :: "FileAnalysis list"
  assumes "distinct ls" and "language ` set xs \<subseteq> set ls"
  shows "mset (concat (map (\<lambda>l. filter (\<lambda>a. language a = l) xs) ls)) = mset xs"
proof (rule multiset_eqI)
  fix x
  have "count (mset (concat (map (\<lambda>l. filter (\<lambda>a. language a = l) xs) ls))) x
        = count (\<Sum>l\<in>set ls. filter_mset (\<lambda>a. language a = l) (mset xs)) x"
    using assms(1) by (simp add: mset_concat comp_def sum_list_distinct_conv_sum_set)
  also have "\<dots> = (\<Sum>l\<in>set ls. if language x = l then count (mset xs) x else 0)"
    by (simp add: count_sum)
  also have "\<dots> = (if language x \<in> set ls then count (mset xs) x else 0)"
    by simp
  also have "\<dots> = count (mset xs) x"
    using assms(2) by (auto simp: count_eq_zero_iff)
  finally show "count (mset (concat (map (\<lambda>l. filter (\<lambda>a. language a = l) xs) ls))) x
                = count (mset xs) x" .
qed

text \<open>
  Claim C7, as the code has it. The detailed listing is the same for every order in which
  the same outcomes complete, when the results have different paths: the languages stand
  in ascending order, each once, and under each language stand its results, sorted by
  path; every result is listed once. The \<open>files\<close> of the report are the results in the
  order of completion.
\<close>

theorem display_listing_deterministic:
  assumes "mset outs' = mset outs"
    and "distinct (map file_path (successes outs))"
  shows "display_listing (fst (aggregate outs' t lg)) = display_listing (fst (aggregate outs t lg))
         \<and> sorted (map fst (display_listing (fst (aggregate outs t lg))))
         \<and> distinct (map fst (display_listing (fst (aggregate outs t lg))))
         \<and> (\<forall>g\<in>set (display_listing (fst (aggregate outs t lg))).
               sorted (map file_path (snd g)) \<and> (\<forall>a\<in>set (snd g). language a = fst g))
         \<and> mset (concat (map snd (display_listing (fst (aggregate outs t lg)))))
             = mset (successes outs)
         \<and> report_files (report repo_path (fst (aggregate outs t lg))) = successes outs"
proof -
  let ?xs = "successes outs"
  let ?xs' = "successes outs'"
  let ?ls = "sorted_list_of_set (language ` set ?xs)"
  have f: "files (fst (aggregate outs t lg)) = ?xs" "files (fst (aggregate outs' t lg)) = ?xs'"
    by (simp_all add: aggregate_eq)
  have m: "mset ?xs' = mset ?xs"
    using assms(1) by (rule successes_mset)
  then have st: "set ?xs' = set ?xs"
    by (rule mset_eq_setD)
  have l: "display_listing (fst (aggregate outs t lg))
           = map (\<lambda>lang. (lang, sort_key file_path (filter (\<lambda>a. language a = lang) ?xs))) ?ls"
    by (simp only: display_listing_eq f)
  have l': "display_listing (fst (aggregate outs' t lg))
           = map (\<lambda>lang. (lang, sort_key file_path (filter (\<lambda>a. language a = lang) ?xs'))) ?ls"
    by (simp only: display_listing_eq f st)
  have c1: "display_listing (fst (aggregate outs' t lg))
            = display_listing (fst (aggregate outs t lg))"
    by (simp only: l l' sort_key_filter_perm [OF m assms(2)])
  have keys: "map fst (display_listing (fst (aggregate outs t lg))) = ?ls"
    by (simp add: l comp_def)
  have c2: "sorted (map fst (display_listing (fst (aggregate outs t lg))))"
    by (simp only: keys) simp
  have c3: "distinct (map fst (display_listing (fst (aggregate outs t lg))))"
    by (simp only: keys) simp
  have c4: "\<forall>g\<in>set (display_listing (fst (aggregate outs t lg))).
               sorted (map file_path (snd g)) \<and> (\<forall>a\<in>set (snd g). language a = fst g)"
    by (auto simp: l)
  have "mset (concat (map snd (display_listing (fst (aggregate outs t lg)))))
        = mset (concat (map (\<lambda>l. filter (\<lambda>a. language a = l) ?xs) ?ls))"
    by (simp add: l mset_concat comp_def)
  also have "\<dots> = mset ?xs"
    by (rule groups_cover) simp_all
  finally have c5: "mset (concat (map snd (display_listing (fst (aggregate outs t lg)))))
                    = mset ?xs" .
  have c6: "report_files (report repo_path (fst (aggregate outs t lg))) = ?xs"
    by (simp add: report_def f)
  from c1 c2 c3 c4 c5 c6 show ?thesis
    by (intro conjI)
qed

theorem display_listing_deterministic_witness:
  "mset (rev demo5_outs) = mset demo5_outs
   \<and> distinct (map file_path (successes demo5_outs))
   \<and> display_listing (fst (aggregate (rev demo5_outs) 7 []))
       = display_listing (fst (aggregate demo5_outs 7 []))
   \<and> map (\<lambda>g. (fst g, map file_path (snd g))) (display_listing (fst (aggregate demo5_outs 7 [])))
       = [(''python'', [''repo/a.py'', ''repo/b.py'', ''repo/d.py'', ''repo/e.py''])]"
proof -
  have h1: "mset (rev demo5_outs) = mset demo5_outs"
    by simp
  have h2: "distinct (map file_path (successes demo5_outs))"
    by code_simp
  note t = display_listing_deterministic [OF h1 h2, of 7 "[]", THEN conjunct1]
  have h3: "map (\<lambda>g. (fst g, map file_path (snd g)))
              (display_listing (fst (aggregate demo5_outs 7 [])))
       = [(''python'', [''repo/a.py'', ''repo/b.py'', ''repo/d.py'', ''repo/e.py''])]"
    by code_simp
  show ?thesis
    using h1 h2 t h3 by (intro conjI)
qed

text \<open>
  Claim C7 as stated fails for the report: its \<open>files\<close> follow the order of completion,
  here b, a, e, d, which is not the order of the paths.
\<close>

theorem report_order_counterexample:
  "map file_path (report_files (report ''repo'' (fst (aggregate demo5_outs 7 []))))
     = [''repo/b.py'', ''repo/a.py'', ''repo/e.py'', ''repo/d.py'']
   \<and> \<not> sorted [''repo/b.py'', ''repo/a.py'', ''repo/e.py'', ''repo/d.py'']"
  by code_simp


end
